theory Spec2Isabelle
  imports Main "HOL-Library.Word"
begin

section \<open>The Okta connector: list and get operations over paginated resources\<close>

text \<open>
  The development embeds the list, get and hydrate functions of the tables
  \<^verbatim>\<open>okta_factor\<close>, \<^verbatim>\<open>okta_app_assigned_user\<close>, \<^verbatim>\<open>okta_password_policy\<close> and
  \<^verbatim>\<open>okta_signon_policy\<close>. A Go \<^verbatim>\<open>error\<close> is its message (\<^verbatim>\<open>err.Error()\<close>), a
  pointer is an \<open>option\<close>, a nil-pointer dereference is the outcome \<open>Panic\<close>. Every
  remote call and every streamed row is appended to a trace, so that the order of
  fetches and emissions can be stated.
\<close>

subsection \<open>Strings\<close>

type_synonym error = string

text \<open>\<^verbatim>\<open>strings.HasPrefix\<close> and \<^verbatim>\<open>strings.Contains\<close> of the Go library, on bytes.\<close>

fun HasPrefix :: "string \<Rightarrow> string \<Rightarrow> bool" where
  "HasPrefix s [] = True"
| "HasPrefix [] (c # cs) = False"
| "HasPrefix (x # xs) (c # cs) = (x = c \<and> HasPrefix xs cs)"

fun Contains :: "string \<Rightarrow> string \<Rightarrow> bool" where
  "Contains [] sub = HasPrefix [] sub"
| "Contains (x # xs) sub = (HasPrefix (x # xs) sub \<or> Contains xs sub)"

text \<open>\<^verbatim>\<open>strings.ToLower\<close> on the ASCII letters; every other byte is kept.\<close>

definition lower_char :: "char \<Rightarrow> char" where
  "lower_char c =
     (let n = (of_char c :: nat)
      in if 65 \<le> n \<and> n \<le> 90 then char_of (n + 32) else c)"

definition ToLower :: "string \<Rightarrow> string" where
  "ToLower s = map lower_char s"

subsection \<open>Outcomes, qualifiers and the query state\<close>

text \<open>
  A hydrate function returns \<^verbatim>\<open>(interface{}, error)\<close>: \<open>NoRow\<close> is \<^verbatim>\<open>(nil, nil)\<close>,
  \<open>Value v\<close> is \<^verbatim>\<open>(v, nil)\<close>, \<open>Failed e\<close> is \<^verbatim>\<open>(nil, err)\<close>, and \<open>Panic\<close> is a
  nil-pointer dereference.
\<close>

datatype 'a hydrated = NoRow | Value 'a | Failed error | Panic

text \<open>\<^verbatim>\<open>proto.QualValue\<close>: a string value, a list of values, or a value of another kind.\<close>

datatype QualValue = StringValue string | ListValue "QualValue list" | OtherValue

fun GetStringValue :: "QualValue option \<Rightarrow> string" where
  "GetStringValue (Some (StringValue s)) = s"
| "GetStringValue _ = []"

fun GetListValue :: "QualValue option \<Rightarrow> QualValue list option" where
  "GetListValue (Some (ListValue vs)) = Some vs"
| "GetListValue _ = None"

text \<open>
  The part of \<^verbatim>\<open>plugin.QueryData\<close> that the functions read: the equality qualifiers,
  the row limit of the query context (\<^verbatim>\<open>*int64\<close>) and the table name.
\<close>

record QueryData =
  EqualsQuals :: "string \<rightharpoonup> QualValue"
  Limit :: "64 word option"
  TableName :: string

text \<open>
  Modelled from the spec: \<^verbatim>\<open>QueryData.EqualsQualString\<close> of the plugin SDK, the
  string value of the exact-match qualifier on a column, empty when there is none.
\<close>

definition EqualsQualString :: "QueryData \<Rightarrow> string \<Rightarrow> string" where
  "EqualsQualString d k = GetStringValue (EqualsQuals d k)"

text \<open>
  What a run does, in order: obtaining the client, the first request of a list
  (with what is sent to the server), the request of a continuation page, and a row
  streamed to the caller.
\<close>

datatype ('q, 'r) event = ConnectCall | Request 'q | NextPage | Streamed 'r

fun is_Streamed :: "('q, 'r) event \<Rightarrow> bool" where
  "is_Streamed (Streamed r) = True"
| "is_Streamed _ = False"

fun is_Fetch :: "('q, 'r) event \<Rightarrow> bool" where
  "is_Fetch (Request q) = True"
| "is_Fetch NextPage = True"
| "is_Fetch _ = False"

fun rows_of :: "('q, 'r) event list \<Rightarrow> 'r list" where
  "rows_of [] = []"
| "rows_of (Streamed r # es) = r # rows_of es"
| "rows_of (e # es) = rows_of es"

fun requests_of :: "('q, 'r) event list \<Rightarrow> 'q list" where
  "requests_of [] = []"
| "requests_of (Request q # es) = q # requests_of es"
| "requests_of (e # es) = requests_of es"

text \<open>
  The mutable part of the query: the remaining-row budget (\<open>None\<close> is unbounded) and
  the trace.
\<close>

record ('q, 'r) QueryStatus =
  budget :: "nat option"
  trace :: "('q, 'r) event list"

definition log_event :: "('q, 'r) event \<Rightarrow> ('q, 'r) QueryStatus \<Rightarrow> ('q, 'r) QueryStatus" where
  "log_event e s = s\<lparr>trace := trace s @ [e]\<rparr>"

text \<open>
  Modelled from the spec: \<^verbatim>\<open>QueryData.StreamListItem\<close> of the plugin SDK, as the
  RowSink of the spec: it consumes one unit of the row budget and streams the row; with
  the budget at zero it performs no output; an unbounded budget never decrements.
\<close>

definition StreamListItem :: "'r \<Rightarrow> ('q, 'r) QueryStatus \<Rightarrow> ('q, 'r) QueryStatus" where
  "StreamListItem r s =
     (case budget s of
        None \<Rightarrow> log_event (Streamed r) s
      | Some 0 \<Rightarrow> s
      | Some (Suc n) \<Rightarrow> log_event (Streamed r) (s\<lparr>budget := Some n\<rparr>))"

text \<open>
  Modelled from the spec: \<^verbatim>\<open>QueryData.RowsRemaining\<close> of the plugin SDK, the
  remaining-row budget; for an unbounded budget a fixed positive number. The context
  is taken as not cancelled.
\<close>

definition RowsRemaining :: "('q, 'r) QueryStatus \<Rightarrow> int" where
  "RowsRemaining s = (case budget s of None \<Rightarrow> 2147483647 | Some n \<Rightarrow> int n)"

subsection \<open>Paginated responses\<close>

text \<open>
  \<^verbatim>\<open>okta.APIResponse\<close> as the code uses it: \<^verbatim>\<open>HasNextPage()\<close> and \<^verbatim>\<open>Next(&v)\<close>,
  which fails or fills \<^verbatim>\<open>v\<close> (a page of type \<open>'p\<close>) and gives the next response. A
  response is a finite chain of pages.
\<close>

datatype 'p APIResponse =
  NoNextPage
  | NextFails error
  | NextOk 'p "'p APIResponse"

fun HasNextPage :: "'p APIResponse \<Rightarrow> bool" where
  "HasNextPage NoNextPage = False"
| "HasNextPage _ = True"

text \<open>The result of \<^verbatim>\<open>Execute()\<close> on a list request: an error, or the first page and the response.\<close>

type_synonym 'p Executed = "error + 'p \<times> 'p APIResponse"

text \<open>The pages that a response delivers, up to its end or its first failure.\<close>

fun ok_pages :: "'p APIResponse \<Rightarrow> 'p list" where
  "ok_pages NoNextPage = []"
| "ok_pages (NextFails err) = []"
| "ok_pages (NextOk p resp) = p # ok_pages resp"

fun of_pages :: "'p list \<Rightarrow> 'p APIResponse" where
  "of_pages [] = NoNextPage"
| "of_pages (p # ps) = NextOk p (of_pages ps)"

subsection \<open>Table \<^verbatim>\<open>okta_app_assigned_user\<close>\<close>

record AppUser =
  au_Id :: "string option"
  au_UserName :: string
  au_email :: string
  au_given_name :: string

record AppUserInfo =
  AppId :: string
  User :: AppUser

text \<open>
  The application union of \<^verbatim>\<open>ListApplications200ResponseInner\<close>: the nine types the
  list function knows, each with its \<^verbatim>\<open>Id *string\<close>, and any other type.
\<close>

datatype Application =
  AutoLoginApplication "string option"
  | BasicAuthApplication "string option"
  | BookmarkApplication "string option"
  | BrowserPluginApplication "string option"
  | OpenIdConnectApplication "string option"
  | SamlApplication "string option"
  | Saml11Application "string option"
  | SecurePasswordStoreApplication "string option"
  | WsFederationApplication "string option"
  | OtherApplication "string option"

text \<open>\<^verbatim>\<open>h.Item\<close>: the union (with its actual instance, possibly nil) or anything else.\<close>

datatype AppItem = ListApplications200ResponseInner "Application option" | OtherItem

fun app_id_of :: "Application \<Rightarrow> string" where
  "app_id_of (AutoLoginApplication (Some i)) = i"
| "app_id_of (BasicAuthApplication (Some i)) = i"
| "app_id_of (BookmarkApplication (Some i)) = i"
| "app_id_of (BrowserPluginApplication (Some i)) = i"
| "app_id_of (OpenIdConnectApplication (Some i)) = i"
| "app_id_of (SamlApplication (Some i)) = i"
| "app_id_of (Saml11Application (Some i)) = i"
| "app_id_of (SecurePasswordStoreApplication (Some i)) = i"
| "app_id_of (WsFederationApplication (Some i)) = i"
| "app_id_of _ = []"

fun extract_appId :: "AppItem \<Rightarrow> string" where
  "extract_appId (ListApplications200ResponseInner (Some app)) = app_id_of app"
| "extract_appId _ = []"

text \<open>What \<^verbatim>\<open>ListApplicationUsers(ctx, appId).Limit(l).Q(q)\<close> sends.\<close>

record AppUsersRequest =
  req_appId :: string
  req_limit :: "32 word"
  req_q :: "string option"

record AppClient =
  ListApplicationUsers :: "AppUsersRequest \<Rightarrow> AppUser list Executed"
  GetApplicationUser :: "string \<Rightarrow> string \<Rightarrow> error + AppUser option"

text \<open>
  The page size: 500, or the row limit when it is smaller; then the conversion
  \<^verbatim>\<open>int32(maxLimit)\<close>, which keeps the low 32 bits.
\<close>

definition page_limit :: "64 word option \<Rightarrow> 32 word" where
  "page_limit lim =
     (let maxLimit = (500 :: 64 word);
          maxLimit = (case lim of
                        None \<Rightarrow> maxLimit
                      | Some l \<Rightarrow> if sint l < sint maxLimit then l else maxLimit)
      in ucast maxLimit)"

definition choose_q :: "QueryData \<Rightarrow> string" where
  "choose_q d =
     (if EqualsQualString d ''user_name'' \<noteq> [] then EqualsQualString d ''user_name''
      else if EqualsQualString d ''first_name'' \<noteq> [] then EqualsQualString d ''first_name''
      else if EqualsQualString d ''email'' \<noteq> [] then EqualsQualString d ''email''
      else [])"

text \<open>
  The request that the list function builds: the page size, and \<^verbatim>\<open>Q(q)\<close> only for a
  non-empty \<open>q\<close>.
\<close>

definition users_request :: "QueryData \<Rightarrow> string \<Rightarrow> AppUsersRequest" where
  "users_request d appId =
     (let q = choose_q d
      in \<lparr>req_appId = appId, req_limit = page_limit (Limit d),
          req_q = (if q \<noteq> [] then Some q else None)\<rparr>)"

text \<open>
  The loop over one page of users: stream the row, then return from the list function
  (\<open>True\<close>) when no row remains. The source has this loop twice, for the first page
  and for the continuation pages.
\<close>

fun stream_users ::
  "string \<Rightarrow> AppUser list \<Rightarrow> ('q, AppUserInfo) QueryStatus \<Rightarrow> bool \<times> ('q, AppUserInfo) QueryStatus" where
  "stream_users appId [] s = (False, s)"
| "stream_users appId (user # users) s =
     (let s = StreamListItem \<lparr>AppId = appId, User = user\<rparr> s
      in if RowsRemaining s = 0 then (True, s) else stream_users appId users s)"

fun page_users ::
  "string \<Rightarrow> AppUser list APIResponse \<Rightarrow> ('q, AppUserInfo) QueryStatus
     \<Rightarrow> unit hydrated \<times> ('q, AppUserInfo) QueryStatus" where
  "page_users appId NoNextPage s = (NoRow, s)"
| "page_users appId (NextFails err) s = (Failed err, log_event NextPage s)"
| "page_users appId (NextOk nextUserSet resp) s =
     (case stream_users appId nextUserSet (log_event NextPage s) of
        (True, s) \<Rightarrow> (NoRow, s)
      | (False, s) \<Rightarrow> page_users appId resp s)"

definition listApplicationAssignedUsers ::
  "(error + AppClient) \<Rightarrow> QueryData \<Rightarrow> AppItem
     \<Rightarrow> (AppUsersRequest, AppUserInfo) QueryStatus
     \<Rightarrow> unit hydrated \<times> (AppUsersRequest, AppUserInfo) QueryStatus" where
  "listApplicationAssignedUsers Connect d item s =
     (let appId = extract_appId item in
      if appId = [] then (NoRow, s)
      else
        (case Connect of
           Inl err \<Rightarrow> (Failed err, log_event ConnectCall s)
         | Inr client \<Rightarrow>
             (let s = log_event ConnectCall s;
                  req = users_request d appId;
                  s = log_event (Request req) s
              in case ListApplicationUsers client req of
                   Inl err \<Rightarrow> (Failed err, s)
                 | Inr (users, resp) \<Rightarrow>
                     (case stream_users appId users s of
                        (True, s) \<Rightarrow> (NoRow, s)
                      | (False, s) \<Rightarrow> page_users appId resp s))))"

text \<open>
  Modelled from the spec: \<^verbatim>\<open>isNotFoundError\<close> of the repository (not among the
  sources), the error classifier of a table: an error is ignorable when its message
  contains one of the declared substrings.
\<close>

definition isNotFoundError :: "string list \<Rightarrow> error \<Rightarrow> bool" where
  "isNotFoundError notFoundErrors err = list_ex (Contains err) notFoundErrors"

text \<open>
  Modelled from the spec: how the plugin SDK runs the hydrate function of a
  \<^verbatim>\<open>GetConfig\<close> under its \<^verbatim>\<open>ShouldIgnoreError\<close>: an ignorable error yields no row
  and no error.
\<close>

definition Get :: "(error \<Rightarrow> bool) \<Rightarrow> 'a hydrated \<Rightarrow> 'a hydrated" where
  "Get ShouldIgnoreError r =
     (case r of
        Failed err \<Rightarrow> if ShouldIgnoreError err then NoRow else Failed err
      | _ \<Rightarrow> r)"

definition getApplicationAssignedUser ::
  "(error + AppClient) \<Rightarrow> QueryData \<Rightarrow> AppUserInfo hydrated" where
  "getApplicationAssignedUser Connect d =
     (let appId = GetStringValue (EqualsQuals d ''app_id'');
          userId = GetStringValue (EqualsQuals d ''id'')
      in if appId = [] \<or> userId = [] then NoRow
         else
           (case Connect of
              Inl err \<Rightarrow> Failed err
            | Inr client \<Rightarrow>
                (case GetApplicationUser client appId userId of
                   Inl err \<Rightarrow> Failed err
                 | Inr None \<Rightarrow> Panic
                 | Inr (Some user) \<Rightarrow> Value \<lparr>AppId = appId, User = user\<rparr>)))"

text \<open>The \<^verbatim>\<open>Get\<close> of the table: the hydrate function under \<^verbatim>\<open>isNotFoundError(["Not found"])\<close>.\<close>

definition tableOktaApplicationAssignedUser_Get ::
  "(error + AppClient) \<Rightarrow> QueryData \<Rightarrow> AppUserInfo hydrated" where
  "tableOktaApplicationAssignedUser_Get Connect d =
     Get (isNotFoundError [''Not found'']) (getApplicationAssignedUser Connect d)"

subsection \<open>Table \<^verbatim>\<open>okta_factor\<close>\<close>

text \<open>
  \<^verbatim>\<open>okta.UserFactor\<close> with the fields the claims read; a profile is kept as its JSON
  text. \<^verbatim>\<open>GetProfile()\<close> is taken as the value of the field.
\<close>

record UserFactor =
  uf_Id :: "string option"
  uf_FactorType :: "string option"
  uf_Profile :: "string option"

text \<open>A typed factor of SDK v6: the embedded \<^verbatim>\<open>UserFactor\<close> and its own profile.\<close>

record TypedFactor =
  tf_UserFactor :: UserFactor
  tf_Profile :: "string option"

record OktaFactor =
  Factor_UserFactor :: UserFactor
  Factor_Profile :: "string option"

record UserFactorInfo =
  UserId :: string
  UserName :: string
  Factor :: OktaFactor

text \<open>
  The dynamic type of a factor's actual instance: the fourteen cases of the type
  switch, and any other type.
\<close>

datatype FactorInstance =
  UserFactorCall TypedFactor
  | UserFactorEmail TypedFactor
  | UserFactorPush TypedFactor
  | UserFactorSMS TypedFactor
  | UserFactorSecurityQuestion TypedFactor
  | UserFactorToken TypedFactor
  | UserFactorTokenHOTP TypedFactor
  | UserFactorTokenHardware TypedFactor
  | UserFactorTokenSoftwareTOTP TypedFactor
  | UserFactorU2F TypedFactor
  | UserFactorWeb TypedFactor
  | UserFactorWebAuthn TypedFactor
  | UserFactorPtr UserFactor
  | UserFactorVal UserFactor
  | OtherFactor

text \<open>The zero value \<^verbatim>\<open>OktaFactor{}\<close>.\<close>

definition empty_OktaFactor :: OktaFactor where
  "empty_OktaFactor =
     \<lparr>Factor_UserFactor = \<lparr>uf_Id = None, uf_FactorType = None, uf_Profile = None\<rparr>,
      Factor_Profile = None\<rparr>"

definition of_typed :: "TypedFactor \<Rightarrow> OktaFactor" where
  "of_typed f = \<lparr>Factor_UserFactor = tf_UserFactor f, Factor_Profile = tf_Profile f\<rparr>"

definition of_plain :: "UserFactor \<Rightarrow> OktaFactor" where
  "of_plain f = \<lparr>Factor_UserFactor = f, Factor_Profile = uf_Profile f\<rparr>"

fun getFactorDetails :: "FactorInstance \<Rightarrow> OktaFactor" where
  "getFactorDetails (UserFactorCall f) = of_typed f"
| "getFactorDetails (UserFactorEmail f) = of_typed f"
| "getFactorDetails (UserFactorPush f) = of_typed f"
| "getFactorDetails (UserFactorSMS f) = of_typed f"
| "getFactorDetails (UserFactorSecurityQuestion f) = of_typed f"
| "getFactorDetails (UserFactorToken f) = of_typed f"
| "getFactorDetails (UserFactorTokenHOTP f) = of_typed f"
| "getFactorDetails (UserFactorTokenHardware f) = of_typed f"
| "getFactorDetails (UserFactorTokenSoftwareTOTP f) = of_typed f"
| "getFactorDetails (UserFactorU2F f) = of_typed f"
| "getFactorDetails (UserFactorWeb f) = of_typed f"
| "getFactorDetails (UserFactorWebAuthn f) = of_typed f"
| "getFactorDetails (UserFactorPtr f) = of_plain f"
| "getFactorDetails (UserFactorVal f) = of_plain f"
| "getFactorDetails OtherFactor = empty_OktaFactor"

text \<open>The parent row, \<^verbatim>\<open>*okta.User\<close>.\<close>

record UserProfile =
  Login :: "string option"

record OktaUser =
  user_Id :: "string option"
  user_Profile :: "UserProfile option"

text \<open>\<^verbatim>\<open>Profile.GetLogin()\<close>: the getter is safe on a nil receiver and a nil field.\<close>

definition GetLogin :: "UserProfile option \<Rightarrow> string" where
  "GetLogin p = (case p of None \<Rightarrow> [] | Some pr \<Rightarrow> (case Login pr of None \<Rightarrow> [] | Some l \<Rightarrow> l))"

text \<open>An item of a page of factors is the union's actual instance, possibly nil.\<close>

type_synonym ListFactors200ResponseInner = "FactorInstance option"

record FactorClient =
  ListFactors :: "string \<Rightarrow> ListFactors200ResponseInner list Executed"
  GetUser :: "string \<Rightarrow> error + OktaUser"
  GetFactor :: "string \<Rightarrow> string \<Rightarrow> error + UserFactor option"

text \<open>
  Modelled from the spec: \<^verbatim>\<open>getListValues\<close> of the repository (not among the
  sources), the non-empty string values of a set-membership qualifier; a nil list has
  none.
\<close>

definition getListValues :: "QualValue list option \<Rightarrow> string list" where
  "getListValues lv =
     (case lv of
        None \<Rightarrow> []
      | Some vs \<Rightarrow> filter (\<lambda>v. v \<noteq> []) (map (\<lambda>v. GetStringValue (Some v)) vs))"

text \<open>The pruning on \<^verbatim>\<open>user_id\<close>: \<open>True\<close> when the list function returns at once.\<close>

definition pruned :: "QueryData \<Rightarrow> string \<Rightarrow> bool" where
  "pruned d userId =
     (if EqualsQuals d ''user_id'' \<noteq> None then
        (if EqualsQualString d ''user_id'' \<noteq> [] then
           EqualsQualString d ''user_id'' \<noteq> [] \<and> EqualsQualString d ''user_id'' \<noteq> userId
         else if length (getListValues (GetListValue (EqualsQuals d ''user_id''))) > 0 then
           userId \<notin> set (getListValues (GetListValue (EqualsQuals d ''user_id'')))
         else False)
      else False)"

text \<open>
  The loop over one page of factors; the source has it twice, for the first page and
  for the continuation pages. An item with no actual instance is passed over.
\<close>

fun stream_factors ::
  "string \<Rightarrow> string \<Rightarrow> ListFactors200ResponseInner list \<Rightarrow> ('q, UserFactorInfo) QueryStatus
     \<Rightarrow> bool \<times> ('q, UserFactorInfo) QueryStatus" where
  "stream_factors userId userName [] s = (False, s)"
| "stream_factors userId userName (None # factors) s = stream_factors userId userName factors s"
| "stream_factors userId userName (Some inst # factors) s =
     (let factorDetails = getFactorDetails inst;
          s = StreamListItem \<lparr>UserId = userId, UserName = userName, Factor = factorDetails\<rparr> s
      in if RowsRemaining s = 0 then (True, s)
         else stream_factors userId userName factors s)"

fun page_factors ::
  "string \<Rightarrow> string \<Rightarrow> ListFactors200ResponseInner list APIResponse
     \<Rightarrow> ('q, UserFactorInfo) QueryStatus \<Rightarrow> unit hydrated \<times> ('q, UserFactorInfo) QueryStatus" where
  "page_factors userId userName NoNextPage s = (NoRow, s)"
| "page_factors userId userName (NextFails err) s = (Failed err, log_event NextPage s)"
| "page_factors userId userName (NextOk nextFactorSet resp) s =
     (case stream_factors userId userName nextFactorSet (log_event NextPage s) of
        (True, s) \<Rightarrow> (NoRow, s)
      | (False, s) \<Rightarrow> page_factors userId userName resp s)"

text \<open>
  The list function; the request event carries the user id, all that is sent to the
  endpoint. \<^verbatim>\<open>h.Item\<close> is nil or a \<^verbatim>\<open>*okta.User\<close>.
\<close>

definition listOktaFactors ::
  "(error + FactorClient) \<Rightarrow> QueryData \<Rightarrow> OktaUser option
     \<Rightarrow> (string, UserFactorInfo) QueryStatus
     \<Rightarrow> unit hydrated \<times> (string, UserFactorInfo) QueryStatus" where
  "listOktaFactors Connect d item s =
     (case Connect of
        Inl err \<Rightarrow> (Failed err, log_event ConnectCall s)
      | Inr client \<Rightarrow>
          (let s = log_event ConnectCall s in
           case (case item of
                   None \<Rightarrow> Some ([], [])
                 | Some userData \<Rightarrow>
                     (case user_Id userData of
                        None \<Rightarrow> None
                      | Some i \<Rightarrow> Some (i, GetLogin (user_Profile userData)))) of
             None \<Rightarrow> (Panic, s)
           | Some (userId, userName) \<Rightarrow>
               if pruned d userId then (NoRow, s)
               else if userId = [] then (NoRow, s)
               else
                 (let s = log_event (Request userId) s in
                  case ListFactors client userId of
                    Inl err \<Rightarrow> if Contains err ''Not found'' then (NoRow, s) else (Failed err, s)
                  | Inr (factors, resp) \<Rightarrow>
                      (case stream_factors userId userName factors s of
                         (True, s) \<Rightarrow> (NoRow, s)
                       | (False, s) \<Rightarrow> page_factors userId userName resp s))))"

definition getOktaFactor :: "(error + FactorClient) \<Rightarrow> QueryData \<Rightarrow> UserFactorInfo hydrated" where
  "getOktaFactor Connect d =
     (let userId = GetStringValue (EqualsQuals d ''user_id'');
          factorId = GetStringValue (EqualsQuals d ''id'')
      in if userId = [] \<or> factorId = [] then NoRow
         else
           (case Connect of
              Inl err \<Rightarrow> Failed err
            | Inr client \<Rightarrow>
                (case GetUser client userId of
                   Inl err \<Rightarrow> if Contains err ''Not found'' then NoRow else Failed err
                 | Inr user \<Rightarrow>
                     (case user_Profile user of
                        None \<Rightarrow> Panic
                      | Some userProfile \<Rightarrow>
                          (let userName = Login userProfile in
                           case GetFactor client userId factorId of
                             Inl err \<Rightarrow> Failed err
                           | Inr None \<Rightarrow> NoRow
                           | Inr (Some result) \<Rightarrow>
                               (case userName of
                                  None \<Rightarrow> Panic
                                | Some n \<Rightarrow>
                                    Value \<lparr>UserId = userId, UserName = n,
                                           Factor = \<lparr>Factor_UserFactor = result,
                                                     Factor_Profile = uf_Profile result\<rparr>\<rparr>))))))"

text \<open>
  The \<^verbatim>\<open>Get\<close> of the table: the hydrate function under
  \<^verbatim>\<open>isNotFoundError(["Not found", "Invalid Factor"])\<close>.
\<close>

definition tableOktaFactor_Get :: "(error + FactorClient) \<Rightarrow> QueryData \<Rightarrow> UserFactorInfo hydrated" where
  "tableOktaFactor_Get Connect d =
     Get (isNotFoundError [''Not found'', ''Invalid Factor'']) (getOktaFactor Connect d)"

subsection \<open>Tables \<^verbatim>\<open>okta_password_policy\<close> and \<^verbatim>\<open>okta_signon_policy\<close>\<close>

text \<open>
  A policy of the SDK with the fields the conversion reads; times and settings are
  kept as their JSON text.
\<close>

record Policy =
  p_Id :: "string option"
  p_Name :: string
  p_Description :: "string option"
  p_Status :: "string option"
  p_Priority :: "32 word option"
  p_System :: "bool option"
  p_Type :: string
  p_Created :: "string option"
  p_LastUpdated :: "string option"
  p_Settings :: "string option"

text \<open>
  The dynamic type of the actual instance of \<^verbatim>\<open>ListPolicies200Response\<close>: the five
  policy types the sources name, and any other type.
\<close>

datatype PolicyInstance =
  AccessPolicy Policy
  | IdpDiscoveryPolicy Policy
  | AuthenticatorEnrollmentPolicy Policy
  | OktaSignOnPolicy Policy
  | PasswordPolicy Policy
  | OtherPolicy

text \<open>The union value: its actual instance, possibly nil.\<close>

type_synonym ListPolicies200Response = "PolicyInstance option"

record PolicyStructure =
  ps_Settings :: "string option"
  ps_Conditions :: "string option"
  ps_Created :: "string option"
  ps_Description :: string
  ps_Id :: string
  ps_LastUpdated :: "string option"
  ps_Name :: string
  ps_Priority :: "32 word"
  ps_Status :: string
  ps_System :: bool
  ps_Type :: string

definition getStringPtrVal :: "string option \<Rightarrow> string" where
  "getStringPtrVal s = (case s of Some v \<Rightarrow> v | None \<Rightarrow> [])"

definition getInt32PtrVal :: "32 word option \<Rightarrow> 32 word" where
  "getInt32PtrVal i = (case i of Some v \<Rightarrow> v | None \<Rightarrow> 0)"

definition getBoolPtrVal :: "bool option \<Rightarrow> bool" where
  "getBoolPtrVal b = (case b of Some v \<Rightarrow> v | None \<Rightarrow> False)"

definition to_struct :: "Policy \<Rightarrow> PolicyStructure" where
  "to_struct p =
     \<lparr>ps_Settings = p_Settings p, ps_Conditions = None, ps_Created = p_Created p,
      ps_Description = getStringPtrVal (p_Description p), ps_Id = getStringPtrVal (p_Id p),
      ps_LastUpdated = p_LastUpdated p, ps_Name = p_Name p, ps_Priority = getInt32PtrVal (p_Priority p),
      ps_Status = getStringPtrVal (p_Status p), ps_System = getBoolPtrVal (p_System p),
      ps_Type = p_Type p\<rparr>"

text \<open>The argument is the pointer \<^verbatim>\<open>*okta.ListPolicies200Response\<close>; the result is a pointer.\<close>

fun convertPolicyRespToStruct :: "ListPolicies200Response option \<Rightarrow> PolicyStructure option" where
  "convertPolicyRespToStruct None = None"
| "convertPolicyRespToStruct (Some None) = None"
| "convertPolicyRespToStruct (Some (Some (PasswordPolicy p))) = Some (to_struct p)"
| "convertPolicyRespToStruct (Some (Some (AuthenticatorEnrollmentPolicy p))) = Some (to_struct p)"
| "convertPolicyRespToStruct (Some (Some _)) = None"

record ('rule, 'mapping) PolicyClient =
  ListPolicies :: "string \<Rightarrow> error + ListPolicies200Response option \<times> ListPolicies200Response APIResponse"
  ListPolicyRules :: "string \<Rightarrow> 'rule list Executed"
  ListPolicyMappings :: "string \<Rightarrow> 'mapping list Executed"

text \<open>Streaming one policy, when the conversion gives one: \<open>True\<close> when no row remains.\<close>

definition stream_policy ::
  "ListPolicies200Response option \<Rightarrow> ('q, PolicyStructure) QueryStatus
     \<Rightarrow> bool \<times> ('q, PolicyStructure) QueryStatus" where
  "stream_policy policyResp s =
     (case convertPolicyRespToStruct policyResp of
        None \<Rightarrow> (False, s)
      | Some policyStruct \<Rightarrow>
          (let s = StreamListItem policyStruct s in (RowsRemaining s = 0, s)))"

fun page_policies ::
  "ListPolicies200Response APIResponse \<Rightarrow> ('q, PolicyStructure) QueryStatus
     \<Rightarrow> unit hydrated \<times> ('q, PolicyStructure) QueryStatus" where
  "page_policies NoNextPage s = (NoRow, s)"
| "page_policies (NextFails err) s = (Failed err, log_event NextPage s)"
| "page_policies (NextOk nextPolicy resp) s =
     (case stream_policy (Some nextPolicy) (log_event NextPage s) of
        (True, s) \<Rightarrow> (NoRow, s)
      | (False, s) \<Rightarrow> page_policies resp s)"

text \<open>The list function of the password and MFA policy tables; the request event carries the policy type.\<close>

definition listPolicies ::
  "(error + ('rule, 'mapping) PolicyClient) \<Rightarrow> QueryData
     \<Rightarrow> (string, PolicyStructure) QueryStatus
     \<Rightarrow> unit hydrated \<times> (string, PolicyStructure) QueryStatus" where
  "listPolicies Connect d s =
     (case Connect of
        Inl err \<Rightarrow> (Failed err, log_event ConnectCall s)
      | Inr client \<Rightarrow>
          (let s = log_event ConnectCall s;
               policyType = (if TableName d = ''okta_password_policy'' then ''PASSWORD''
                             else if TableName d = ''okta_mfa_policy'' then ''MFA_ENROLL''
                             else []);
               s = log_event (Request policyType) s
           in case ListPolicies client policyType of
                Inl err \<Rightarrow> (Failed err, s)
              | Inr (policyResp, resp) \<Rightarrow>
                  (case (if policyResp \<noteq> None then stream_policy policyResp s else (False, s)) of
                     (True, s) \<Rightarrow> (NoRow, s)
                   | (False, s) \<Rightarrow> page_policies resp s)))"

text \<open>
  \<^verbatim>\<open>h.Item\<close> of the two enrichment functions: a \<^verbatim>\<open>*PolicyStructure\<close>, a
  \<^verbatim>\<open>*okta.Policy\<close> or \<^verbatim>\<open>*okta.AuthorizationServerPolicy\<close> (with its \<^verbatim>\<open>Id *string\<close>),
  the union value, or anything else.
\<close>

datatype HydrateItem =
  ItemPolicyStructure PolicyStructure
  | ItemPolicy "string option"
  | ItemAuthorizationServerPolicy "string option"
  | ItemListPolicies200Response ListPolicies200Response
  | ItemOther

text \<open>The policy id of the row; \<open>None\<close> is the dereference of a nil \<^verbatim>\<open>Id\<close>.\<close>

fun rules_policyId :: "HydrateItem \<Rightarrow> string option" where
  "rules_policyId (ItemPolicyStructure item) = Some (ps_Id item)"
| "rules_policyId (ItemPolicy i) = i"
| "rules_policyId (ItemAuthorizationServerPolicy i) = i"
| "rules_policyId (ItemListPolicies200Response None) = Some []"
| "rules_policyId (ItemListPolicies200Response (Some (AccessPolicy p))) = p_Id p"
| "rules_policyId (ItemListPolicies200Response (Some (IdpDiscoveryPolicy p))) = p_Id p"
| "rules_policyId (ItemListPolicies200Response (Some (AuthenticatorEnrollmentPolicy p))) = p_Id p"
| "rules_policyId (ItemListPolicies200Response (Some (OktaSignOnPolicy p))) = p_Id p"
| "rules_policyId (ItemListPolicies200Response (Some (PasswordPolicy p))) = p_Id p"
| "rules_policyId (ItemListPolicies200Response (Some OtherPolicy)) = Some []"
| "rules_policyId ItemOther = Some []"

fun resources_policyId :: "HydrateItem \<Rightarrow> string option" where
  "resources_policyId (ItemPolicyStructure item) = Some (ps_Id item)"
| "resources_policyId (ItemPolicy i) = i"
| "resources_policyId (ItemAuthorizationServerPolicy i) = i"
| "resources_policyId _ = Some []"

text \<open>The paging loop of the two enrichment functions: the pages are appended.\<close>

fun append_pages :: "'a list \<Rightarrow> 'a list APIResponse \<Rightarrow> error + 'a list" where
  "append_pages acc NoNextPage = Inr acc"
| "append_pages acc (NextFails err) = Inl err"
| "append_pages acc (NextOk nextSet resp) = append_pages (acc @ nextSet) resp"

text \<open>The loop over the rules: the first failure of \<^verbatim>\<open>structToMap\<close> is returned.\<close>

fun map_rules :: "('rule \<Rightarrow> error + 'm) \<Rightarrow> 'rule list \<Rightarrow> 'm list \<Rightarrow> error + 'm list" where
  "map_rules structToMap [] allRules = Inr allRules"
| "map_rules structToMap (rule # rules) allRules =
     (case structToMap rule of
        Inl err \<Rightarrow> Inl err
      | Inr result \<Rightarrow> map_rules structToMap rules (allRules @ [result]))"

text \<open>
  The enrichment of the column \<^verbatim>\<open>rules\<close>. \<^verbatim>\<open>structToMap\<close> of the repository is
  not among the sources and is a parameter.
\<close>

definition getOktaPolicyRules ::
  "('rule \<Rightarrow> error + 'm) \<Rightarrow> (error + ('rule, 'mapping) PolicyClient) \<Rightarrow> HydrateItem option
     \<Rightarrow> 'm list hydrated" where
  "getOktaPolicyRules structToMap Connect item =
     (case item of
        None \<Rightarrow> NoRow
      | Some it \<Rightarrow>
          (case rules_policyId it of
             None \<Rightarrow> Panic
           | Some policyId \<Rightarrow>
               if policyId = [] then NoRow
               else
                 (case Connect of
                    Inl err \<Rightarrow> Failed err
                  | Inr client \<Rightarrow>
                      (case ListPolicyRules client policyId of
                         Inl err \<Rightarrow> Failed err
                       | Inr (policyRules, resp) \<Rightarrow>
                           (case append_pages ([] @ policyRules) resp of
                              Inl err \<Rightarrow> Failed err
                            | Inr rules \<Rightarrow>
                                (case map_rules structToMap rules [] of
                                   Inl err \<Rightarrow> Failed err
                                 | Inr allRules \<Rightarrow> Value allRules))))))"

text \<open>The enrichment of the column \<^verbatim>\<open>resource_mapping\<close>.\<close>

definition getOktaPolicyAssociatedResources ::
  "(error + ('rule, 'mapping) PolicyClient) \<Rightarrow> HydrateItem option \<Rightarrow> 'mapping list hydrated" where
  "getOktaPolicyAssociatedResources Connect item =
     (case item of
        None \<Rightarrow> NoRow
      | Some it \<Rightarrow>
          (case resources_policyId it of
             None \<Rightarrow> Panic
           | Some policyId \<Rightarrow>
               if policyId = [] then NoRow
               else
                 (case Connect of
                    Inl err \<Rightarrow> Failed err
                  | Inr client \<Rightarrow>
                      (case ListPolicyMappings client policyId of
                         Inl err \<Rightarrow>
                           if Contains (ToLower err) ''not found'' \<or> Contains err ''404'' then NoRow
                           else Failed err
                       | Inr (policyMappings, resp) \<Rightarrow>
                           (case append_pages ([] @ policyMappings) resp of
                              Inl err \<Rightarrow> Failed err
                            | Inr mappings \<Rightarrow> Value mappings)))))"

subsection \<open>The streaming loops in one form\<close>

text \<open>
  The three list functions share the shape of their loops. \<open>stream_rows\<close> is the loop
  over the rows of one page and \<open>page_rows\<close> the paging loop; the loops of the tables are
  instances of them (shown below), so that the budget argument is made once.
\<close>

fun stream_rows :: "'r list \<Rightarrow> ('q, 'r) QueryStatus \<Rightarrow> bool \<times> ('q, 'r) QueryStatus" where
  "stream_rows [] s = (False, s)"
| "stream_rows (r # rs) s =
     (let s = StreamListItem r s
      in if RowsRemaining s = 0 then (True, s) else stream_rows rs s)"

fun page_rows ::
  "'r list APIResponse \<Rightarrow> ('q, 'r) QueryStatus \<Rightarrow> unit hydrated \<times> ('q, 'r) QueryStatus" where
  "page_rows NoNextPage s = (NoRow, s)"
| "page_rows (NextFails err) s = (Failed err, log_event NextPage s)"
| "page_rows (NextOk rs resp) s =
     (case stream_rows rs (log_event NextPage s) of
        (True, s) \<Rightarrow> (NoRow, s)
      | (False, s) \<Rightarrow> page_rows resp s)"

text \<open>The rows that a page of users, of factors, or a policy stands for.\<close>

definition user_rows :: "string \<Rightarrow> AppUser list \<Rightarrow> AppUserInfo list" where
  "user_rows appId users = map (\<lambda>user. \<lparr>AppId = appId, User = user\<rparr>) users"

fun factor_rows :: "string \<Rightarrow> string \<Rightarrow> ListFactors200ResponseInner list \<Rightarrow> UserFactorInfo list" where
  "factor_rows userId userName [] = []"
| "factor_rows userId userName (None # factors) = factor_rows userId userName factors"
| "factor_rows userId userName (Some inst # factors) =
     \<lparr>UserId = userId, UserName = userName, Factor = getFactorDetails inst\<rparr>
       # factor_rows userId userName factors"

definition policy_rows :: "ListPolicies200Response option \<Rightarrow> PolicyStructure list" where
  "policy_rows policyResp =
     (case convertPolicyRespToStruct policyResp of None \<Rightarrow> [] | Some ps \<Rightarrow> [ps])"

text \<open>
  The budget discipline between the state before and after a piece of a run: events
  are only appended; at most as many rows are streamed as the budget allowed; the budget
  decreases by the number of rows; and when a positive budget is used up, the last
  event is the streaming of a row.
\<close>

definition respects_budget :: "('q, 'r) QueryStatus \<Rightarrow> ('q, 'r) QueryStatus \<Rightarrow> bool" where
  "respects_budget s s' \<longleftrightarrow>
     (\<exists>ev. trace s' = trace s @ ev \<and>
        (case budget s of
           None \<Rightarrow> budget s' = None
         | Some n \<Rightarrow>
             length (rows_of ev) \<le> n \<and> budget s' = Some (n - length (rows_of ev)) \<and>
             (0 < n \<and> length (rows_of ev) = n \<longrightarrow> (\<exists>pre r. ev = pre @ [Streamed r]))))"

text \<open>
  The row limit \<open>N\<close> between the state before and after a list function: at most
  \<open>N\<close> rows are streamed; and when \<open>N > 0\<close> rows were streamed, the streaming
  of the last of them is the last event: no request of a page follows it.
\<close>

definition within_limit :: "nat \<Rightarrow> ('q, 'r) QueryStatus \<Rightarrow> ('q, 'r) QueryStatus \<Rightarrow> bool" where
  "within_limit N s s' \<longleftrightarrow>
     length (rows_of (trace s')) \<le> length (rows_of (trace s)) + N \<and>
     (0 < N \<and> length (rows_of (trace s')) = length (rows_of (trace s)) + N
        \<longrightarrow> trace s' \<noteq> [] \<and> is_Streamed (last (trace s')))"

text \<open>
  The raw factor that an actual instance carries: the embedded \<^verbatim>\<open>UserFactor\<close> of the
  typed factors, the factor itself for a plain \<^verbatim>\<open>UserFactor\<close>. The spec names no
  variant set for the factor family; the named types of \<open>FactorInstance\<close> are its
  declared variants, and \<open>OtherFactor\<close> is outside them.
\<close>

fun embedded_factor :: "FactorInstance \<Rightarrow> UserFactor option" where
  "embedded_factor (UserFactorCall f) = Some (tf_UserFactor f)"
| "embedded_factor (UserFactorEmail f) = Some (tf_UserFactor f)"
| "embedded_factor (UserFactorPush f) = Some (tf_UserFactor f)"
| "embedded_factor (UserFactorSMS f) = Some (tf_UserFactor f)"
| "embedded_factor (UserFactorSecurityQuestion f) = Some (tf_UserFactor f)"
| "embedded_factor (UserFactorToken f) = Some (tf_UserFactor f)"
| "embedded_factor (UserFactorTokenHOTP f) = Some (tf_UserFactor f)"
| "embedded_factor (UserFactorTokenHardware f) = Some (tf_UserFactor f)"
| "embedded_factor (UserFactorTokenSoftwareTOTP f) = Some (tf_UserFactor f)"
| "embedded_factor (UserFactorU2F f) = Some (tf_UserFactor f)"
| "embedded_factor (UserFactorWeb f) = Some (tf_UserFactor f)"
| "embedded_factor (UserFactorWebAuthn f) = Some (tf_UserFactor f)"
| "embedded_factor (UserFactorPtr f) = Some f"
| "embedded_factor (UserFactorVal f) = Some f"
| "embedded_factor OtherFactor = None"

text \<open>
  Modelled from the spec: the declared variant set of the policy family (spec 4.2:
  password, access, authenticator-enrollment, IdP-discovery and sign-on policy), with the
  policy that a raw item of a declared variant carries; any other type is undeclared.
\<close>

fun declared_policy :: "PolicyInstance \<Rightarrow> Policy option" where
  "declared_policy (PasswordPolicy p) = Some p"
| "declared_policy (AccessPolicy p) = Some p"
| "declared_policy (AuthenticatorEnrollmentPolicy p) = Some p"
| "declared_policy (IdpDiscoveryPolicy p) = Some p"
| "declared_policy (OktaSignOnPolicy p) = Some p"
| "declared_policy OtherPolicy = None"

text \<open>The rows that a budget lets through, of the rows offered in order.\<close>

definition allowed :: "nat option \<Rightarrow> 'a list \<Rightarrow> 'a list" where
  "allowed b rs = (case b of None \<Rightarrow> rs | Some n \<Rightarrow> take n rs)"

subsection \<open>Concrete inputs\<close>

text \<open>Small inputs on which the properties below are evaluated.\<close>

definition fresh :: "nat option \<Rightarrow> ('q, 'r) QueryStatus" where
  "fresh b = \<lparr>budget = b, trace = []\<rparr>"

definition quals :: "(string \<times> QualValue) list \<Rightarrow> 64 word option \<Rightarrow> string \<Rightarrow> QueryData" where
  "quals qs lim table = \<lparr>EqualsQuals = map_of qs, Limit = lim, TableName = table\<rparr>"

definition example_factor :: "string \<Rightarrow> ListFactors200ResponseInner" where
  "example_factor i =
     Some (UserFactorSMS \<lparr>tf_UserFactor = \<lparr>uf_Id = Some i, uf_FactorType = Some ''sms'',
                                            uf_Profile = None\<rparr>,
                          tf_Profile = None\<rparr>)"

definition example_FactorClient :: "ListFactors200ResponseInner list Executed \<Rightarrow> FactorClient" where
  "example_FactorClient listed =
     \<lparr>ListFactors = (\<lambda>userId. listed),
      GetUser = (\<lambda>userId. Inl ''Not found''),
      GetFactor = (\<lambda>userId factorId. Inl ''Not found'')\<rparr>"

definition example_user :: "string \<Rightarrow> OktaUser" where
  "example_user i = \<lparr>user_Id = Some i, user_Profile = Some \<lparr>Login = Some ''login''\<rparr>\<rparr>"

definition example_AppUser :: "string \<Rightarrow> AppUser" where
  "example_AppUser n = \<lparr>au_Id = Some n, au_UserName = n, au_email = [], au_given_name = []\<rparr>"

definition example_AppClient :: "AppUser list Executed \<Rightarrow> AppClient" where
  "example_AppClient listed =
     \<lparr>ListApplicationUsers = (\<lambda>req. listed),
      GetApplicationUser = (\<lambda>appId userId. Inl ''Not found'')\<rparr>"

definition example_policy :: "string option \<Rightarrow> Policy" where
  "example_policy i =
     \<lparr>p_Id = i, p_Name = ''Default'', p_Description = None, p_Status = Some ''ACTIVE'',
      p_Priority = Some 1, p_System = Some True, p_Type = ''PASSWORD'', p_Created = None,
      p_LastUpdated = None, p_Settings = None\<rparr>"

definition example_PolicyClient ::
  "(error + ListPolicies200Response option \<times> ListPolicies200Response APIResponse)
     \<Rightarrow> unit list Executed \<Rightarrow> unit list Executed \<Rightarrow> (unit, unit) PolicyClient" where
  "example_PolicyClient listed rules mappings =
     \<lparr>ListPolicies = (\<lambda>policyType. listed),
      ListPolicyRules = (\<lambda>policyId. rules),
      ListPolicyMappings = (\<lambda>policyId. mappings)\<rparr>"

definition ten_ids :: "string \<Rightarrow> string list" where
  "ten_ids p = map (\<lambda>c. p @ [c]) ''0123456789''"

text \<open>Three pages of ten items each.\<close>

definition three_pages_factors :: "ListFactors200ResponseInner list Executed" where
  "three_pages_factors =
     Inr (map example_factor (ten_ids ''a''),
          of_pages [map example_factor (ten_ids ''b''), map example_factor (ten_ids ''c'')])"

definition three_pages_users :: "AppUser list Executed" where
  "three_pages_users =
     Inr (map example_AppUser (ten_ids ''a''),
          of_pages [map example_AppUser (ten_ids ''b''), map example_AppUser (ten_ids ''c'')])"

section \<open>Properties\<close>

subsection \<open>Traces and the streaming loops\<close>

lemma rows_of_append: "rows_of (a @ b) = rows_of a @ rows_of b"
  by (induction a rule: rows_of.induct) simp_all

lemma rows_of_Streamed: "rows_of (map Streamed rs) = rs"
  by (induction rs) simp_all

lemma requests_of_append: "requests_of (a @ b) = requests_of a @ requests_of b"
  by (induction a rule: requests_of.induct) simp_all

lemma requests_of_Streamed: "requests_of (map Streamed rs) = []"
  by (induction rs) simp_all

lemma stream_rows_unbounded:
  "budget s = None \<Longrightarrow> stream_rows rs s = (False, s\<lparr>trace := trace s @ map Streamed rs\<rparr>)"
  by (induction rs arbitrary: s)
     (simp_all add: StreamListItem_def RowsRemaining_def log_event_def)

lemma stream_rows_bounded:
  "budget s = Some n \<Longrightarrow>
   stream_rows rs s =
     (if rs = [] then (False, s)
      else if length rs < n then (False, s\<lparr>budget := Some (n - length rs), trace := trace s @ map Streamed rs\<rparr>)
      else (True, s\<lparr>budget := Some 0, trace := trace s @ map Streamed (take n rs)\<rparr>))"
proof (induction rs arbitrary: s n)
  case Nil
  then show ?case by simp
next
  case (Cons r rs)
  show ?case
  proof (cases n)
    case 0
    then show ?thesis using Cons.prems
      by (simp add: StreamListItem_def RowsRemaining_def)
  next
    case (Suc m)
    let ?s1 = "log_event (Streamed r) (s\<lparr>budget := Some m\<rparr>)"
    have b1: "budget ?s1 = Some m" by (simp add: log_event_def)
    have st: "StreamListItem r s = ?s1"
      using Cons.prems Suc by (simp add: StreamListItem_def)
    show ?thesis
    proof (cases "m = 0")
      case True
      then show ?thesis using Cons.prems Suc st
        by (simp add: RowsRemaining_def log_event_def)
    next
      case False
      then show ?thesis using Cons.prems Suc st Cons.IH[OF b1]
        by (auto simp add: RowsRemaining_def log_event_def)
    qed
  qed
qed

subsection \<open>The budget discipline\<close>

lemma respects_budget_refl: "respects_budget s s"
  by (auto simp add: respects_budget_def split: option.splits)

lemma respects_budget_log:
  "\<not> is_Streamed e \<Longrightarrow> respects_budget s (log_event e s)"
  by (cases e) (auto simp add: respects_budget_def log_event_def split: option.splits)

lemma respects_budget_trans:
  assumes "respects_budget s s1" and "respects_budget s1 s2"
    and "budget s = Some 0 \<or> budget s1 \<noteq> Some 0"
  shows "respects_budget s s2"
proof -
  from assms(1) obtain ev1 where e1: "trace s1 = trace s @ ev1"
    and b1: "case budget s of None \<Rightarrow> budget s1 = None
             | Some n \<Rightarrow> length (rows_of ev1) \<le> n \<and> budget s1 = Some (n - length (rows_of ev1)) \<and>
                 (0 < n \<and> length (rows_of ev1) = n \<longrightarrow> (\<exists>pre r. ev1 = pre @ [Streamed r]))"
    unfolding respects_budget_def by blast
  from assms(2) obtain ev2 where e2: "trace s2 = trace s1 @ ev2"
    and b2: "case budget s1 of None \<Rightarrow> budget s2 = None
             | Some n \<Rightarrow> length (rows_of ev2) \<le> n \<and> budget s2 = Some (n - length (rows_of ev2)) \<and>
                 (0 < n \<and> length (rows_of ev2) = n \<longrightarrow> (\<exists>pre r. ev2 = pre @ [Streamed r]))"
    unfolding respects_budget_def by blast
  have tr: "trace s2 = trace s @ (ev1 @ ev2)" using e1 e2 by simp
  show ?thesis
  proof (cases "budget s")
    case None
    then show ?thesis using tr b1 b2 unfolding respects_budget_def by auto
  next
    case (Some n)
    let ?k1 = "length (rows_of ev1)" and ?k2 = "length (rows_of ev2)"
    from Some b1 have k1: "?k1 \<le> n" and s1: "budget s1 = Some (n - ?k1)"
      and l1: "0 < n \<and> ?k1 = n \<longrightarrow> (\<exists>pre r. ev1 = pre @ [Streamed r])" by simp_all
    from s1 b2 have k2: "?k2 \<le> n - ?k1" and s2: "budget s2 = Some (n - ?k1 - ?k2)"
      and l2: "0 < n - ?k1 \<and> ?k2 = n - ?k1 \<longrightarrow> (\<exists>pre r. ev2 = pre @ [Streamed r])" by simp_all
    have len: "length (rows_of (ev1 @ ev2)) = ?k1 + ?k2" by (simp add: rows_of_append)
    have last: "\<exists>pre r. ev1 @ ev2 = pre @ [Streamed r]" if "0 < n" "?k1 + ?k2 = n"
    proof -
      from assms(3) Some s1 that have "0 < n - ?k1" by auto
      moreover from that k2 have "?k2 = n - ?k1" by simp
      ultimately obtain pre r where "ev2 = pre @ [Streamed r]" using l2 by blast
      then have "ev1 @ ev2 = (ev1 @ pre) @ [Streamed r]" by simp
      then show ?thesis by blast
    qed
    show ?thesis unfolding respects_budget_def
      apply (rule exI[of _ "ev1 @ ev2"])
      using tr Some k1 k2 s2 len last by auto
  qed
qed

lemma stream_rows_respects:
  assumes "stream_rows rs s = (stop, s')"
  shows "respects_budget s s' \<and> (\<not> stop \<longrightarrow> budget s = Some 0 \<or> budget s' \<noteq> Some 0)
         \<and> (stop \<longrightarrow> budget s' = Some 0)"
proof (cases "budget s")
  case None
  then show ?thesis using assms stream_rows_unbounded[OF None, of rs]
    by (auto simp add: respects_budget_def rows_of_Streamed)
next
  case (Some n)
  show ?thesis
  proof (cases "rs = []")
    case True
    then show ?thesis using assms by (simp add: respects_budget_refl)
  next
    case False
    show ?thesis
    proof (cases "length rs < n")
      case True
      then show ?thesis using assms False Some stream_rows_bounded[OF Some, of rs]
        by (auto simp add: respects_budget_def rows_of_Streamed)
    next
      case ge: False
      have "\<exists>pre r. map Streamed (take n rs) = pre @ [Streamed r]" if "0 < n"
      proof -
        from that ge False have "take n rs \<noteq> []" by auto
        then obtain ys y where "take n rs = ys @ [y]" by (metis rev_exhaust)
        then have "map Streamed (take n rs) = map Streamed ys @ [Streamed y]" by simp
        then show ?thesis by blast
      qed
      then show ?thesis using assms False Some ge stream_rows_bounded[OF Some, of rs]
        by (auto simp add: respects_budget_def rows_of_Streamed)
    qed
  qed
qed

lemma page_rows_respects:
  "page_rows resp s = (res, s') \<Longrightarrow> respects_budget s s'"
proof (induction resp arbitrary: s)
  case NoNextPage
  then show ?case by (simp add: respects_budget_refl)
next
  case (NextFails err)
  then show ?case by (auto simp add: respects_budget_log)
next
  case (NextOk rs resp)
  let ?s0 = "log_event NextPage s"
  obtain stop s1 where st: "stream_rows rs ?s0 = (stop, s1)" by (cases "stream_rows rs ?s0")
  have b0: "budget ?s0 = budget s" by (simp add: log_event_def)
  have r0: "respects_budget s ?s0" by (simp add: respects_budget_log)
  from stream_rows_respects[OF st] have r1: "respects_budget ?s0 s1"
    and ns: "\<not> stop \<longrightarrow> budget ?s0 = Some 0 \<or> budget s1 \<noteq> Some 0" by simp_all
  have r01: "respects_budget s s1"
    by (rule respects_budget_trans[OF r0 r1]) (use b0 in auto)
  show ?case
  proof (cases stop)
    case True
    then show ?thesis using NextOk.prems st r01 by simp
  next
    case False
    then have "page_rows resp s1 = (res, s')" using NextOk.prems st by simp
    then have "respects_budget s1 s'" by (rule NextOk.IH)
    then show ?thesis
      by (rule respects_budget_trans[OF r01]) (use ns False b0 in auto)
  qed
qed

lemma stream_users_rows: "stream_users appId users s = stream_rows (user_rows appId users) s"
  by (induction users arbitrary: s) (simp_all add: user_rows_def Let_def)

lemma page_users_rows:
  "page_users appId resp s = page_rows (map_APIResponse (user_rows appId) resp) s"
  by (induction resp arbitrary: s) (simp_all add: stream_users_rows split: prod.splits bool.splits)

lemma stream_factors_rows:
  "stream_factors userId userName factors s = stream_rows (factor_rows userId userName factors) s"
  by (induction userId userName factors s rule: stream_factors.induct) (simp_all add: Let_def)

lemma page_factors_rows:
  "page_factors userId userName resp s
     = page_rows (map_APIResponse (factor_rows userId userName) resp) s"
  by (induction resp arbitrary: s) (simp_all add: stream_factors_rows split: prod.splits bool.splits)

lemma stream_policy_rows: "stream_policy policyResp s = stream_rows (policy_rows policyResp) s"
  by (simp add: stream_policy_def policy_rows_def Let_def split: option.splits)

lemma page_policies_rows:
  "page_policies resp s = page_rows (map_APIResponse (\<lambda>p. policy_rows (Some p)) resp) s"
  by (induction resp arbitrary: s) (simp_all add: stream_policy_rows split: prod.splits bool.splits)

lemma users_loops_rows:
  "(case stream_users a us s of (True, s1) \<Rightarrow> (NoRow, s1) | (False, s1) \<Rightarrow> page_users a resp s1)
   = (case stream_rows (user_rows a us) s of
        (True, s1) \<Rightarrow> (NoRow, s1)
      | (False, s1) \<Rightarrow> page_rows (map_APIResponse (user_rows a) resp) s1)"
  by (simp add: stream_users_rows page_users_rows split: prod.splits bool.splits)

lemma factors_loops_rows:
  "(case stream_factors u n fs s of (True, s1) \<Rightarrow> (NoRow, s1) | (False, s1) \<Rightarrow> page_factors u n resp s1)
   = (case stream_rows (factor_rows u n fs) s of
        (True, s1) \<Rightarrow> (NoRow, s1)
      | (False, s1) \<Rightarrow> page_rows (map_APIResponse (factor_rows u n) resp) s1)"
  by (simp add: stream_factors_rows page_factors_rows split: prod.splits bool.splits)

lemma first_then_pages_respects:
  assumes "(case stream_rows rs s of (True, s1) \<Rightarrow> (NoRow, s1) | (False, s1) \<Rightarrow> page_rows resp s1) = (res, s')"
  shows "respects_budget s s'"
proof -
  obtain stop s1 where st: "stream_rows rs s = (stop, s1)" by (cases "stream_rows rs s")
  from stream_rows_respects[OF st] have r1: "respects_budget s s1"
    and ns: "\<not> stop \<longrightarrow> budget s = Some 0 \<or> budget s1 \<noteq> Some 0" by simp_all
  show ?thesis
  proof (cases stop)
    case True
    then show ?thesis using assms st r1 by simp
  next
    case False
    then have "page_rows resp s1 = (res, s')" using assms st by simp
    then have "respects_budget s1 s'" by (rule page_rows_respects)
    then show ?thesis by (rule respects_budget_trans[OF r1]) (use ns False in auto)
  qed
qed

lemma respects_budget_after_log:
  assumes "\<not> is_Streamed e" and "respects_budget (log_event e s) s'"
  shows "respects_budget s s'"
  by (rule respects_budget_trans[OF respects_budget_log[OF assms(1)] assms(2)])
     (cases "budget s = Some 0"; simp add: log_event_def)

lemma listApplicationAssignedUsers_respects:
  assumes "listApplicationAssignedUsers Connect d item s = (res, s')"
  shows "respects_budget s s'"
proof (cases "extract_appId item = []")
  case True
  then show ?thesis using assms by (simp add: listApplicationAssignedUsers_def respects_budget_refl)
next
  case False
  show ?thesis
  proof (cases Connect)
    case (Inl err)
    then show ?thesis using assms False
      by (auto simp add: listApplicationAssignedUsers_def respects_budget_log)
  next
    case (Inr client)
    let ?req = "users_request d (extract_appId item)"
    let ?s2 = "log_event (Request ?req) (log_event ConnectCall s)"
    have "respects_budget ?s2 s'"
    proof (cases "ListApplicationUsers client ?req")
      case (Inl err)
      then show ?thesis using assms False Inr
        by (simp add: listApplicationAssignedUsers_def Let_def respects_budget_refl)
    next
      case (Inr page)
      obtain users resp where page: "page = (users, resp)" by (cases page)
      have "(case stream_rows (user_rows (extract_appId item) users) ?s2 of
               (True, s1) \<Rightarrow> (NoRow, s1)
             | (False, s1) \<Rightarrow> page_rows (map_APIResponse (user_rows (extract_appId item)) resp) s1)
            = (res, s')"
        using assms False \<open>Connect = Inr client\<close> Inr page
        by (simp add: listApplicationAssignedUsers_def Let_def users_loops_rows)
      then show ?thesis by (rule first_then_pages_respects)
    qed
    then have "respects_budget (log_event ConnectCall s) s'"
      by (rule respects_budget_after_log[rotated]) simp
    then show ?thesis
      by (rule respects_budget_after_log[rotated]) simp
  qed
qed

lemma policies_loops_rows:
  "(case (if policyResp \<noteq> None then stream_policy policyResp s else (False, s)) of
      (True, s1) \<Rightarrow> (NoRow, s1) | (False, s1) \<Rightarrow> page_policies resp s1)
   = (case stream_rows (policy_rows policyResp) s of
        (True, s1) \<Rightarrow> (NoRow, s1)
      | (False, s1) \<Rightarrow> page_rows (map_APIResponse (\<lambda>p. policy_rows (Some p)) resp) s1)"
  by (cases policyResp)
     (simp_all add: stream_policy_rows page_policies_rows policy_rows_def split: prod.splits bool.splits)

lemma listOktaFactors_respects:
  assumes "listOktaFactors Connect d item s = (res, s')"
  shows "respects_budget s s'"
proof (cases Connect)
  case (Inl err)
  then show ?thesis using assms
    by (auto simp add: listOktaFactors_def respects_budget_log)
next
  case (Inr client)
  let ?s1 = "log_event ConnectCall s"
  have "respects_budget ?s1 s'"
  proof (cases "case item of None \<Rightarrow> Some ([], [])
                | Some userData \<Rightarrow>
                    (case user_Id userData of None \<Rightarrow> None
                     | Some i \<Rightarrow> Some (i, GetLogin (user_Profile userData)))")
    case None
    then show ?thesis using assms Inr
      by (simp add: listOktaFactors_def Let_def respects_budget_refl)
  next
    case (Some key)
    obtain userId userName where key: "key = (userId, userName)" by (cases key)
    show ?thesis
    proof (cases "pruned d userId \<or> userId = []")
      case True
      then show ?thesis using assms Inr Some key
        by (auto simp add: listOktaFactors_def Let_def respects_budget_refl split: if_splits)
    next
      case False
      let ?s2 = "log_event (Request userId) ?s1"
      have "respects_budget ?s2 s'"
      proof (cases "ListFactors client userId")
        case (Inl err)
        then show ?thesis using assms Inr Some key False
          by (auto simp add: listOktaFactors_def Let_def respects_budget_refl split: if_splits)
      next
        case page: (Inr page)
        obtain factors resp where p: "page = (factors, resp)" by (cases page)
        have "(case stream_rows (factor_rows userId userName factors) ?s2 of
                 (True, s1) \<Rightarrow> (NoRow, s1)
               | (False, s1) \<Rightarrow> page_rows (map_APIResponse (factor_rows userId userName) resp) s1)
              = (res, s')"
          using assms Inr Some key False page p
          by (simp add: listOktaFactors_def Let_def factors_loops_rows)
        then show ?thesis by (rule first_then_pages_respects)
      qed
      then show ?thesis by (rule respects_budget_after_log[rotated]) simp
    qed
  qed
  then show ?thesis by (rule respects_budget_after_log[rotated]) simp
qed

lemma listPolicies_respects:
  assumes "listPolicies Connect d s = (res, s')"
  shows "respects_budget s s'"
proof (cases Connect)
  case (Inl err)
  then show ?thesis using assms
    by (auto simp add: listPolicies_def respects_budget_log)
next
  case (Inr client)
  define policyType where "policyType =
     (if TableName d = ''okta_password_policy'' then ''PASSWORD''
      else if TableName d = ''okta_mfa_policy'' then ''MFA_ENROLL'' else [])"
  let ?s2 = "log_event (Request policyType) (log_event ConnectCall s)"
  have "respects_budget ?s2 s'"
  proof (cases "ListPolicies client policyType")
    case (Inl err)
    then show ?thesis using assms Inr
      by (simp add: listPolicies_def Let_def respects_budget_refl policyType_def[symmetric])
  next
    case page: (Inr page)
    obtain policyResp resp where p: "page = (policyResp, resp)" by (cases page)
    have "(case stream_rows (policy_rows policyResp) ?s2 of
             (True, s1) \<Rightarrow> (NoRow, s1)
           | (False, s1) \<Rightarrow> page_rows (map_APIResponse (\<lambda>p. policy_rows (Some p)) resp) s1)
          = (res, s')"
      using assms Inr page p
      by (simp add: listPolicies_def Let_def policyType_def[symmetric] policies_loops_rows
               del: not_None_eq)
    then show ?thesis by (rule first_then_pages_respects)
  qed
  then have "respects_budget (log_event ConnectCall s) s'"
    by (rule respects_budget_after_log[rotated]) simp
  then show ?thesis by (rule respects_budget_after_log[rotated]) simp
qed

lemma respects_budget_within_limit:
  assumes "respects_budget s s'" and "budget s = Some N"
  shows "within_limit N s s'"
proof -
  from assms have "\<exists>ev. trace s' = trace s @ ev \<and> length (rows_of ev) \<le> N \<and>
      (0 < N \<and> length (rows_of ev) = N \<longrightarrow> (\<exists>pre r. ev = pre @ [Streamed r]))"
    unfolding respects_budget_def by auto
  then obtain ev where tr: "trace s' = trace s @ ev"
    and le: "length (rows_of ev) \<le> N"
    and lst: "0 < N \<and> length (rows_of ev) = N \<longrightarrow> (\<exists>pre r. ev = pre @ [Streamed r])"
    by blast
  have len: "length (rows_of (trace s')) = length (rows_of (trace s)) + length (rows_of ev)"
    using tr by (simp add: rows_of_append)
  show ?thesis unfolding within_limit_def
  proof (rule conjI)
    show "length (rows_of (trace s')) \<le> length (rows_of (trace s)) + N"
      using len le by simp
  next
    show "0 < N \<and> length (rows_of (trace s')) = length (rows_of (trace s)) + N
          \<longrightarrow> trace s' \<noteq> [] \<and> is_Streamed (last (trace s'))"
    proof (rule impI)
      assume a: "0 < N \<and> length (rows_of (trace s')) = length (rows_of (trace s)) + N"
      with len lst obtain pre r where "ev = pre @ [Streamed r]" by auto
      with tr have "trace s' = (trace s @ pre) @ [Streamed r]" by simp
      then show "trace s' \<noteq> [] \<and> is_Streamed (last (trace s'))"
        by (simp del: append_assoc)
    qed
  qed
qed


subsection \<open>The page size of \<^verbatim>\<open>okta_app_assigned_user\<close>\<close>

lemma page_limit_None: "page_limit None = 500"
  by (simp add: page_limit_def)

lemma page_limit_Some:
  assumes "- (2 ^ 31) \<le> sint l"
  shows "sint (page_limit (Some l)) = min 500 (sint l)"
proof (cases "sint l < 500")
  case True
  have "(ucast l :: 32 word) = word_of_int (sint l)"
    by (rule bit_word_eqI) (auto simp add: bit_simps)
  then have "sint (ucast l :: 32 word) = signed_take_bit 31 (sint l)"
    by (simp only: sint_sbintrunc') simp
  also have "\<dots> = sint l"
    using assms True by (simp add: signed_take_bit_int_eq_self)
  finally show ?thesis
    using True by (simp add: page_limit_def)
next
  case False
  then show ?thesis by (simp add: page_limit_def)
qed

subsection \<open>Requests in the trace\<close>

lemma stream_rows_trace:
  "\<exists>k. trace (snd (stream_rows rs s)) = trace s @ map Streamed (take k rs)"
proof (cases "budget s")
  case None
  have "trace (snd (stream_rows rs s)) = trace s @ map Streamed (take (length rs) rs)"
    by (simp add: stream_rows_unbounded[OF None])
  then show ?thesis by blast
next
  case (Some n)
  show ?thesis
  proof (cases "rs = [] \<or> length rs < n")
    case True
    then have "trace (snd (stream_rows rs s)) = trace s @ map Streamed (take (length rs) rs)"
      by (auto simp add: stream_rows_bounded[OF Some])
    then show ?thesis by blast
  next
    case False
    then have "trace (snd (stream_rows rs s)) = trace s @ map Streamed (take n rs)"
      by (auto simp add: stream_rows_bounded[OF Some])
    then show ?thesis by blast
  qed
qed

lemma stream_rows_requests:
  "requests_of (trace (snd (stream_rows rs s))) = requests_of (trace s)"
proof -
  obtain k where "trace (snd (stream_rows rs s)) = trace s @ map Streamed (take k rs)"
    using stream_rows_trace by blast
  then show ?thesis by (simp add: requests_of_append requests_of_Streamed)
qed

lemma page_rows_requests:
  "requests_of (trace (snd (page_rows resp s))) = requests_of (trace s)"
proof (induction resp arbitrary: s)
  case NoNextPage
  then show ?case by simp
next
  case (NextFails err)
  then show ?case by (simp add: log_event_def requests_of_append)
next
  case (NextOk rs resp)
  let ?s0 = "log_event NextPage s"
  obtain stop s1 where st: "stream_rows rs ?s0 = (stop, s1)" by (cases "stream_rows rs ?s0")
  have "requests_of (trace s1) = requests_of (trace ?s0)"
    using stream_rows_requests[of rs ?s0] st by simp
  also have "\<dots> = requests_of (trace s)" by (simp add: log_event_def requests_of_append)
  finally have r1: "requests_of (trace s1) = requests_of (trace s)" .
  show ?case
  proof (cases stop)
    case True
    then show ?thesis using st r1 by simp
  next
    case False
    then show ?thesis using st r1 NextOk.IH[of s1] by simp
  qed
qed

lemma first_then_pages_requests:
  "requests_of (trace (snd (case stream_rows rs s of
        (True, s1) \<Rightarrow> (NoRow, s1) | (False, s1) \<Rightarrow> page_rows resp s1)))
   = requests_of (trace s)"
proof -
  obtain stop s1 where st: "stream_rows rs s = (stop, s1)" by (cases "stream_rows rs s")
  have r1: "requests_of (trace s1) = requests_of (trace s)"
    using stream_rows_requests[of rs s] st by simp
  show ?thesis
    by (cases stop) (use st r1 page_rows_requests[of resp s1] in simp_all)
qed

lemma page_limit_le: 
  assumes "\<forall>l. lim = Some l \<longrightarrow> - (2 ^ 31) \<le> sint l"
  shows "sint (page_limit lim) = (case lim of None \<Rightarrow> 500 | Some l \<Rightarrow> min 500 (sint l))"
  using assms by (cases lim) (simp_all add: page_limit_None page_limit_Some)


subsection \<open>Pagination without a row limit\<close>

lemma map_of_pages: "map_APIResponse f (of_pages ps) = of_pages (map f ps)"
  by (induction ps) simp_all

lemma page_rows_unbounded:
  "budget s = None \<Longrightarrow>
   page_rows (of_pages ps) s
     = (NoRow, s\<lparr>trace := trace s @ concat (map (\<lambda>p. NextPage # map Streamed p) ps)\<rparr>)"
proof (induction ps arbitrary: s)
  case Nil
  then show ?case by simp
next
  case (Cons p ps)
  let ?s0 = "log_event NextPage s"
  let ?s1 = "?s0\<lparr>trace := trace ?s0 @ map Streamed p\<rparr>"
  have b0: "budget ?s0 = None" using Cons.prems by (simp add: log_event_def)
  have b1: "budget ?s1 = None" using b0 by simp
  have "page_rows (of_pages (p # ps)) s = page_rows (of_pages ps) ?s1"
    by (simp add: stream_rows_unbounded[OF b0])
  also have "\<dots> = (NoRow, ?s1\<lparr>trace := trace ?s1 @ concat (map (\<lambda>p. NextPage # map Streamed p) ps)\<rparr>)"
    by (rule Cons.IH[OF b1])
  finally show ?case by (simp add: log_event_def)
qed

lemma first_then_pages_unbounded:
  assumes "budget s = None"
  shows "(case stream_rows rs s of
            (True, s1) \<Rightarrow> (NoRow, s1) | (False, s1) \<Rightarrow> page_rows (of_pages ps) s1)
         = (NoRow, s\<lparr>trace := trace s @ map Streamed rs
                               @ concat (map (\<lambda>p. NextPage # map Streamed p) ps)\<rparr>)"
proof -
  let ?s1 = "s\<lparr>trace := trace s @ map Streamed rs\<rparr>"
  have b1: "budget ?s1 = None" using assms by simp
  show ?thesis
    by (simp add: stream_rows_unbounded[OF assms] page_rows_unbounded[OF b1])
qed

lemma factor_rows_all:
  "\<forall>f \<in> set fs. f \<noteq> None \<Longrightarrow>
   factor_rows u n fs = map (\<lambda>f. \<lparr>UserId = u, UserName = n, Factor = getFactorDetails (the f)\<rparr>) fs"
  by (induction u n fs rule: factor_rows.induct) simp_all

lemma rows_of_pages:
  "rows_of (concat (map (\<lambda>p. NextPage # map Streamed p) ps)) = concat ps"
  by (induction ps) (simp_all add: rows_of_append rows_of_Streamed)

lemma listOktaFactors_pages:
  assumes conn: "Connect = Inr client"
    and item: "item = Some userData" "user_Id userData = Some userId" "userId \<noteq> []"
    and np: "\<not> pruned d userId"
    and resp: "ListFactors client userId = Inr (p, of_pages ps)"
    and unb: "budget s = None"
  shows "listOktaFactors Connect d item s
         = (NoRow, s\<lparr>trace := trace s @ [ConnectCall, Request userId]
              @ map Streamed (factor_rows userId (GetLogin (user_Profile userData)) p)
              @ concat (map (\<lambda>p. NextPage # map Streamed p)
                  (map (factor_rows userId (GetLogin (user_Profile userData))) ps))\<rparr>)"
proof -
  let ?s2 = "log_event (Request userId) (log_event ConnectCall s)"
  have b2: "budget ?s2 = None" using unb by (simp add: log_event_def)
  have "listOktaFactors Connect d item s
        = (case stream_rows (factor_rows userId (GetLogin (user_Profile userData)) p) ?s2 of
             (True, s1) \<Rightarrow> (NoRow, s1)
           | (False, s1) \<Rightarrow> page_rows (of_pages (map (factor_rows userId (GetLogin (user_Profile userData))) ps)) s1)"
    using conn item np resp
    unfolding map_of_pages[symmetric]
    by (simp add: listOktaFactors_def Let_def factors_loops_rows)
  then show ?thesis
    unfolding first_then_pages_unbounded[OF b2] by (simp add: log_event_def)
qed

lemma listApplicationAssignedUsers_pages:
  assumes appId: "extract_appId item = appId" "appId \<noteq> []"
    and resp: "ListApplicationUsers client (users_request d appId) = Inr (p, of_pages ps)"
    and unb: "budget s = None"
  shows "listApplicationAssignedUsers (Inr client) d item s
         = (NoRow, s\<lparr>trace := trace s @ [ConnectCall, Request (users_request d appId)]
              @ map Streamed (user_rows appId p)
              @ concat (map (\<lambda>p. NextPage # map Streamed p) (map (user_rows appId) ps))\<rparr>)"
proof -
  let ?req = "users_request d appId"
  let ?s2 = "log_event (Request ?req) (log_event ConnectCall s)"
  have b2: "budget ?s2 = None" using unb by (simp add: log_event_def)
  have "listApplicationAssignedUsers (Inr client) d item s
        = (case stream_rows (user_rows appId p) ?s2 of
             (True, s1) \<Rightarrow> (NoRow, s1)
           | (False, s1) \<Rightarrow> page_rows (of_pages (map (user_rows appId) ps)) s1)"
    using appId resp
    unfolding map_of_pages[symmetric]
    by (simp add: listApplicationAssignedUsers_def Let_def users_loops_rows)
  then show ?thesis
    unfolding first_then_pages_unbounded[OF b2] by (simp add: log_event_def)
qed

lemma rows_of_Streamed_comp: "rows_of (map (Streamed \<circ> f) xs) = map f xs"
  by (induction xs) simp_all

subsection \<open>The primary fetch of \<^verbatim>\<open>listOktaFactors\<close>\<close>

lemma listOktaFactors_requests:
  "requests_of (trace (snd (listOktaFactors Connect d item s)))
   = requests_of (trace s) @
       (case Connect of
          Inl err \<Rightarrow> []
        | Inr client \<Rightarrow>
            (case item of
               None \<Rightarrow> []
             | Some userData \<Rightarrow>
                 (case user_Id userData of
                    None \<Rightarrow> []
                  | Some userId \<Rightarrow> if pruned d userId \<or> userId = [] then [] else [userId])))"
proof (cases Connect)
  case (Inl err)
  then show ?thesis by (simp add: listOktaFactors_def log_event_def requests_of_append)
next
  case (Inr client)
  show ?thesis
  proof (cases item)
    case None
    then show ?thesis using Inr
      by (simp add: listOktaFactors_def Let_def log_event_def requests_of_append)
  next
    case (Some userData)
    show ?thesis
    proof (cases "user_Id userData")
      case None
      then show ?thesis using Inr Some
        by (simp add: listOktaFactors_def Let_def log_event_def requests_of_append)
    next
      case key: (Some userId)
      show ?thesis
      proof (cases "pruned d userId \<or> userId = []")
        case True
        then show ?thesis using Inr Some key
          by (auto simp add: listOktaFactors_def Let_def log_event_def requests_of_append)
      next
        case False
        let ?s2 = "log_event (Request userId) (log_event ConnectCall s)"
        have s2: "requests_of (trace ?s2) = requests_of (trace s) @ [userId]"
          by (simp add: log_event_def requests_of_append)
        have "requests_of (trace (snd (listOktaFactors Connect d item s))) = requests_of (trace ?s2)"
        proof (cases "ListFactors client userId")
          case (Inl err)
          then show ?thesis using Inr Some key False
            by (simp add: listOktaFactors_def Let_def)
        next
          case page: (Inr page)
          obtain factors resp where p: "page = (factors, resp)" by (cases page)
          have "listOktaFactors Connect d item s
                = (case stream_rows (factor_rows userId (GetLogin (user_Profile userData)) factors) ?s2 of
                     (True, s1) \<Rightarrow> (NoRow, s1)
                   | (False, s1) \<Rightarrow>
                       page_rows (map_APIResponse (factor_rows userId (GetLogin (user_Profile userData))) resp) s1)"
            using Inr Some key False page p
            by (simp add: listOktaFactors_def Let_def factors_loops_rows)
          then show ?thesis by (simp only: first_then_pages_requests)
        qed
        then show ?thesis using s2 Inr Some key False by simp
      qed
    qed
  qed
qed

lemma pruned_exact:
  "EqualsQuals d ''user_id'' = Some (StringValue v) \<Longrightarrow> v \<noteq> [] \<Longrightarrow> pruned d userId = (v \<noteq> userId)"
  by (simp add: pruned_def EqualsQualString_def)

lemma pruned_list:
  "EqualsQuals d ''user_id'' = Some (ListValue vs) \<Longrightarrow>
   pruned d userId = (getListValues (Some vs) \<noteq> [] \<and> userId \<notin> set (getListValues (Some vs)))"
  by (auto simp add: pruned_def EqualsQualString_def)

lemma listOktaFactors_pruned:
  "pruned d key \<Longrightarrow>
   listOktaFactors (Inr client) d (Some \<lparr>user_Id = Some key, user_Profile = p\<rparr>) s
     = (NoRow, log_event ConnectCall s)"
  by (simp add: listOktaFactors_def)

subsection \<open>The rows that a run streams\<close>

lemma stream_rows_rows:
  assumes "stream_rows rs s = (stop, s')"
  shows "rows_of (trace s') = rows_of (trace s) @ allowed (budget s) rs
   \<and> budget s' = map_option (\<lambda>n. n - length rs) (budget s)
   \<and> (stop \<longleftrightarrow> rs \<noteq> [] \<and> (\<exists>n. budget s = Some n \<and> n \<le> length rs))"
proof (cases "budget s")
  case None
  then show ?thesis using assms stream_rows_unbounded[OF None, of rs]
    by (auto simp add: allowed_def rows_of_append rows_of_Streamed)
next
  case (Some n)
  then show ?thesis using assms stream_rows_bounded[OF Some, of rs]
    by (auto simp add: allowed_def rows_of_append rows_of_Streamed split: if_splits)
qed

lemma allowed_append:
  "allowed b (rs @ ts)
   = allowed b rs @ allowed (map_option (\<lambda>n. n - length rs) b) ts"
  by (cases b) (simp_all add: allowed_def)

lemma allowed_stop: "n \<le> length rs \<Longrightarrow> allowed (Some n) (rs @ ts) = allowed (Some n) rs"
  by (simp add: allowed_def)

lemma page_rows_rows:
  "rows_of (trace (snd (page_rows resp s)))
   = rows_of (trace s) @ allowed (budget s) (concat (ok_pages resp))"
proof (induction resp arbitrary: s)
  case NoNextPage
  then show ?case by (cases "budget s") (simp_all add: allowed_def)
next
  case (NextFails err)
  then show ?case
    by (cases "budget s") (simp_all add: allowed_def log_event_def rows_of_append)
next
  case (NextOk rs resp)
  let ?s0 = "log_event NextPage s"
  obtain stop s1 where st: "stream_rows rs ?s0 = (stop, s1)" by (cases "stream_rows rs ?s0")
  have b0: "budget ?s0 = budget s" and r0: "rows_of (trace ?s0) = rows_of (trace s)"
    by (simp_all add: log_event_def rows_of_append)
  from stream_rows_rows[OF st] b0 r0
  have r1: "rows_of (trace s1) = rows_of (trace s) @ allowed (budget s) rs"
    and b1: "budget s1 = map_option (\<lambda>n. n - length rs) (budget s)"
    and sp: "stop \<longleftrightarrow> rs \<noteq> [] \<and> (\<exists>n. budget s = Some n \<and> n \<le> length rs)"
    by simp_all
  show ?case
  proof (cases stop)
    case True
    then obtain n where "budget s = Some n" "n \<le> length rs" using sp by blast
    then show ?thesis using True st r1 by (simp add: allowed_stop)
  next
    case False
    then have "rows_of (trace (snd (page_rows (NextOk rs resp) s)))
               = rows_of (trace s1) @ allowed (budget s1) (concat (ok_pages resp))"
      using st NextOk.IH[of s1] by simp
    then show ?thesis using r1 b1 by (simp add: allowed_append)
  qed
qed

lemma first_then_pages_rows:
  "rows_of (trace (snd (case stream_rows rs s of
        (True, s1) \<Rightarrow> (NoRow, s1) | (False, s1) \<Rightarrow> page_rows resp s1)))
   = rows_of (trace s) @ allowed (budget s) (rs @ concat (ok_pages resp))"
proof -
  obtain stop s1 where st: "stream_rows rs s = (stop, s1)" by (cases "stream_rows rs s")
  from stream_rows_rows[OF st]
  have r1: "rows_of (trace s1) = rows_of (trace s) @ allowed (budget s) rs"
    and b1: "budget s1 = map_option (\<lambda>n. n - length rs) (budget s)"
    and sp: "stop \<longleftrightarrow> rs \<noteq> [] \<and> (\<exists>n. budget s = Some n \<and> n \<le> length rs)"
    by simp_all
  show ?thesis
  proof (cases stop)
    case True
    then obtain n where "budget s = Some n" "n \<le> length rs" using sp by blast
    then show ?thesis using True st r1 by (simp add: allowed_stop)
  next
    case False
    then show ?thesis using st r1 b1 page_rows_rows[of resp s1] by (simp add: allowed_append)
  qed
qed

lemma ok_pages_map: "ok_pages (map_APIResponse f resp) = map f (ok_pages resp)"
  by (induction resp) simp_all

lemma user_rows_concat: "concat (map (user_rows a) ps) = user_rows a (concat ps)"
  by (induction ps) (simp_all add: user_rows_def)

subsection \<open>Errors of the remote calls\<close>

lemma getOktaFactor_GetFactor_fails:
  assumes "GetStringValue (EqualsQuals d ''user_id'') = userId" and "userId \<noteq> []"
    and "GetStringValue (EqualsQuals d ''id'') = factorId" and "factorId \<noteq> []"
    and "GetUser client userId = Inr user" and "user_Profile user = Some pr"
    and "GetFactor client userId factorId = Inl err"
  shows "getOktaFactor (Inr client) d = Failed err"
  using assms by (simp add: getOktaFactor_def Let_def)

lemma getApplicationAssignedUser_fails:
  assumes "GetStringValue (EqualsQuals d ''app_id'') = appId" and "appId \<noteq> []"
    and "GetStringValue (EqualsQuals d ''id'') = userId" and "userId \<noteq> []"
    and "GetApplicationUser client appId userId = Inl err"
  shows "getApplicationAssignedUser (Inr client) d = Failed err"
  using assms by (simp add: getApplicationAssignedUser_def Let_def)

lemma Get_ignored: "ShouldIgnoreError err \<Longrightarrow> Get ShouldIgnoreError (Failed err) = NoRow"
  by (simp add: Get_def)

lemma Get_NoRow: "Get ShouldIgnoreError NoRow = NoRow"
  by (simp add: Get_def)

lemma listOktaFactors_first_page_error:
  assumes "user_Id userData = Some userId" and "userId \<noteq> []" and "\<not> pruned d userId"
    and "ListFactors client userId = Inl err"
  shows "listOktaFactors (Inr client) d (Some userData) s
         = (if Contains err ''Not found'' then NoRow else Failed err,
            log_event (Request userId) (log_event ConnectCall s))"
  using assms by (simp add: listOktaFactors_def Let_def)

lemma page_rows_failure:
  "fst (page_rows resp s) = Failed err \<Longrightarrow> \<exists>s'. snd (page_rows resp s) = log_event NextPage s'"
proof (induction resp arbitrary: s)
  case NoNextPage
  then show ?case by simp
next
  case (NextFails e)
  then show ?case by auto
next
  case (NextOk rs resp)
  obtain stop s1 where st: "stream_rows rs (log_event NextPage s) = (stop, s1)"
    by (cases "stream_rows rs (log_event NextPage s)")
  show ?case
  proof (cases stop)
    case True
    then show ?thesis using NextOk.prems st by simp
  next
    case False
    then show ?thesis using NextOk.prems st NextOk.IH[of s1] by simp
  qed
qed

text \<open>
  Under the classifier of the tables, an error whose message contains \<^verbatim>\<open>Not found\<close> is
  discarded by the \<^verbatim>\<open>Get\<close> of both tables, at each of the three remote calls.
\<close>

lemma table_Get_discards_Not_found:
  assumes "Contains err ''Not found''"
  shows "(GetUser client1 (GetStringValue (EqualsQuals d ''user_id'')) = Inl err
            \<longrightarrow> tableOktaFactor_Get (Inr client1) d = NoRow)
       \<and> (GetUser client2 (GetStringValue (EqualsQuals d ''user_id'')) = Inr user
            \<and> user_Profile user \<noteq> None
            \<and> GetFactor client2 (GetStringValue (EqualsQuals d ''user_id''))
                 (GetStringValue (EqualsQuals d ''id'')) = Inl err
            \<longrightarrow> tableOktaFactor_Get (Inr client2) d = NoRow)
       \<and> (GetApplicationUser client3 (GetStringValue (EqualsQuals d3 ''app_id''))
                 (GetStringValue (EqualsQuals d3 ''id'')) = Inl err
            \<longrightarrow> tableOktaApplicationAssignedUser_Get (Inr client3) d3 = NoRow)"
proof (intro conjI impI)
  assume "GetUser client1 (GetStringValue (EqualsQuals d ''user_id'')) = Inl err"
  then have "getOktaFactor (Inr client1) d = NoRow"
    using assms by (simp add: getOktaFactor_def Let_def)
  then show "tableOktaFactor_Get (Inr client1) d = NoRow"
    by (simp add: tableOktaFactor_Get_def Get_NoRow)
next
  assume a: "GetUser client2 (GetStringValue (EqualsQuals d ''user_id'')) = Inr user
            \<and> user_Profile user \<noteq> None
            \<and> GetFactor client2 (GetStringValue (EqualsQuals d ''user_id''))
                 (GetStringValue (EqualsQuals d ''id'')) = Inl err"
  then have "getOktaFactor (Inr client2) d = NoRow \<or> getOktaFactor (Inr client2) d = Failed err"
    by (auto simp add: getOktaFactor_def Let_def)
  moreover have "isNotFoundError [''Not found'', ''Invalid Factor''] err"
    using assms by (simp add: isNotFoundError_def)
  ultimately show "tableOktaFactor_Get (Inr client2) d = NoRow"
    by (auto simp add: tableOktaFactor_Get_def Get_NoRow Get_ignored)
next
  assume "GetApplicationUser client3 (GetStringValue (EqualsQuals d3 ''app_id''))
                 (GetStringValue (EqualsQuals d3 ''id'')) = Inl err"
  then have "getApplicationAssignedUser (Inr client3) d3 = NoRow
           \<or> getApplicationAssignedUser (Inr client3) d3 = Failed err"
    by (auto simp add: getApplicationAssignedUser_def Let_def)
  moreover have "isNotFoundError [''Not found''] err"
    using assms by (simp add: isNotFoundError_def)
  ultimately show "tableOktaApplicationAssignedUser_Get (Inr client3) d3 = NoRow"
    by (auto simp add: tableOktaApplicationAssignedUser_Get_def Get_NoRow Get_ignored)
qed

section \<open>The claims\<close>

text \<open>
  C1. For every row limit \<open>N\<close>, each of the list functions \<^verbatim>\<open>listOktaFactors\<close>,
  \<^verbatim>\<open>listApplicationAssignedUsers\<close> and \<^verbatim>\<open>listPolicies\<close>, started with a remaining-row
  budget of \<open>N\<close>, streams at most \<open>N\<close> rows; and once a positive budget is used
  up, the streaming of the \<open>N\<close>-th row is the last event of the run: the function
  returns and no request of a page follows it.
\<close>

theorem row_limit_respected:
  assumes "budget sf = Some N" and "budget su = Some N" and "budget sp = Some N"
  shows "within_limit N sf (snd (listOktaFactors ConnectF d itemF sf))
       \<and> within_limit N su (snd (listApplicationAssignedUsers ConnectU d itemU su))
       \<and> within_limit N sp (snd (listPolicies ConnectP d sp))"
  using assms
  by (metis listOktaFactors_respects listApplicationAssignedUsers_respects listPolicies_respects
        respects_budget_within_limit prod.collapse)

theorem row_limit_respected_witness:
  "budget (fresh (Some 2) :: (string, UserFactorInfo) QueryStatus) = Some 2
   \<and> within_limit 2 (fresh (Some 2))
        (snd (listOktaFactors
             (Inr (example_FactorClient
                (Inr ([example_factor ''a'', example_factor ''b''],
                      NextOk [example_factor ''c''] NoNextPage))))
             (quals [] (Some 2) ''okta_factor'') (Some (example_user ''u1'')) (fresh (Some 2))))
   \<and> map is_Fetch (trace (snd (listOktaFactors
             (Inr (example_FactorClient
                (Inr ([example_factor ''a'', example_factor ''b''],
                      NextOk [example_factor ''c''] NoNextPage))))
             (quals [] (Some 2) ''okta_factor'') (Some (example_user ''u1'')) (fresh (Some 2)))))
       = [False, True, False, False]
   \<and> within_limit 2 (fresh (Some 2))
        (snd (listApplicationAssignedUsers
             (Inr (example_AppClient
                (Inr ([example_AppUser ''a'', example_AppUser ''b''],
                      NextOk [example_AppUser ''c''] NoNextPage))))
             (quals [] (Some 2) ''okta_factor'')
             (ListApplications200ResponseInner (Some (SamlApplication (Some ''app1''))))
             (fresh (Some 2))))
   \<and> within_limit 2 (fresh (Some 2))
        (snd (listPolicies
             (Inr (example_PolicyClient
                (Inr (Some (Some (PasswordPolicy (example_policy (Some ''p1'')))),
                      NextOk (Some (PasswordPolicy (example_policy (Some ''p2''))))
                        (NextOk (Some (PasswordPolicy (example_policy (Some ''p3'')))) NoNextPage)))
                (Inl ''e'') (Inl ''e'')))
             (quals [] (Some 2) ''okta_factor'') (fresh (Some 2))))"
  using row_limit_respected [of "fresh (Some 2)" 2 "fresh (Some 2)" "fresh (Some 2)"
      "Inr (example_FactorClient
                (Inr ([example_factor ''a'', example_factor ''b''],
                      NextOk [example_factor ''c''] NoNextPage)))"
      "quals [] (Some 2) ''okta_factor''" "Some (example_user ''u1'')"
      "Inr (example_AppClient
                (Inr ([example_AppUser ''a'', example_AppUser ''b''],
                      NextOk [example_AppUser ''c''] NoNextPage)))"
      "ListApplications200ResponseInner (Some (SamlApplication (Some ''app1'')))"
      "Inr (example_PolicyClient
                (Inr (Some (Some (PasswordPolicy (example_policy (Some ''p1'')))),
                      NextOk (Some (PasswordPolicy (example_policy (Some ''p2''))))
                        (NextOk (Some (PasswordPolicy (example_policy (Some ''p3'')))) NoNextPage)))
                (Inl ''e'') (Inl ''e''))"]
  by (simp add: fresh_def listOktaFactors_def example_FactorClient_def example_factor_def
        quals_def example_user_def pruned_def GetLogin_def log_event_def StreamListItem_def
        RowsRemaining_def)

text \<open>
  C10. The page size that \<^verbatim>\<open>listApplicationAssignedUsers\<close> sends with its request is
  \<open>min(500, L)\<close> for a row limit \<open>L\<close> and \<open>500\<close> without a row limit, and so never
  above \<open>500\<close>. The limit is an \<^verbatim>\<open>int64\<close> converted to \<^verbatim>\<open>int32\<close>; the statement
  holds for every limit from \<open>-2\<^sup>3\<^sup>1\<close> upwards, so for every row limit.
\<close>

theorem page_size_clamped:
  assumes "\<forall>l. Limit d = Some l \<longrightarrow> - (2 ^ 31) \<le> sint l"
    and "extract_appId item \<noteq> []"
  shows "map req_limit (requests_of (trace (snd (listApplicationAssignedUsers (Inr client) d item s))))
           = map req_limit (requests_of (trace s)) @ [page_limit (Limit d)]
       \<and> sint (page_limit (Limit d)) = (case Limit d of None \<Rightarrow> 500 | Some l \<Rightarrow> min 500 (sint l))
       \<and> sint (page_limit (Limit d)) \<le> 500"
proof -
  let ?req = "users_request d (extract_appId item)"
  let ?s2 = "log_event (Request ?req) (log_event ConnectCall s)"
  have s2: "requests_of (trace ?s2) = requests_of (trace s) @ [?req]"
    by (simp add: log_event_def requests_of_append)
  have "requests_of (trace (snd (listApplicationAssignedUsers (Inr client) d item s)))
        = requests_of (trace ?s2)"
  proof (cases "ListApplicationUsers client ?req")
    case (Inl err)
    then show ?thesis using assms(2)
      by (simp add: listApplicationAssignedUsers_def Let_def)
  next
    case (Inr page)
    obtain users resp where page: "page = (users, resp)" by (cases page)
    have "listApplicationAssignedUsers (Inr client) d item s
          = (case stream_rows (user_rows (extract_appId item) users) ?s2 of
               (True, s1) \<Rightarrow> (NoRow, s1)
             | (False, s1) \<Rightarrow> page_rows (map_APIResponse (user_rows (extract_appId item)) resp) s1)"
      using assms(2) Inr page
      by (simp add: listApplicationAssignedUsers_def Let_def users_loops_rows)
    then show ?thesis by (simp only: first_then_pages_requests)
  qed
  with s2 have "map req_limit (requests_of (trace (snd (listApplicationAssignedUsers (Inr client) d item s))))
           = map req_limit (requests_of (trace s)) @ [page_limit (Limit d)]"
    by (simp add: users_request_def Let_def)
  moreover have v: "sint (page_limit (Limit d)) = (case Limit d of None \<Rightarrow> 500 | Some l \<Rightarrow> min 500 (sint l))"
    by (rule page_limit_le[OF assms(1)])
  moreover have "sint (page_limit (Limit d)) \<le> 500"
    unfolding v by (cases "Limit d") simp_all
  ultimately show ?thesis by blast
qed

theorem page_size_clamped_witness:
  "Limit (quals [] (Some 3) ''okta_app_assigned_user'') = Some 3
   \<and> - (2 ^ 31) \<le> sint (3 :: 64 word)
   \<and> extract_appId (ListApplications200ResponseInner (Some (SamlApplication (Some ''app1'')))) \<noteq> []
   \<and> map req_limit (requests_of (trace (snd (listApplicationAssignedUsers
        (Inr (example_AppClient (Inr ([example_AppUser ''a''], NoNextPage))))
        (quals [] (Some 3) ''okta_app_assigned_user'')
        (ListApplications200ResponseInner (Some (SamlApplication (Some ''app1''))))
        (fresh None))))) = [3]
   \<and> sint (page_limit (Some 3)) = 3"
  using page_size_clamped [of "quals [] (Some 3) ''okta_app_assigned_user''"
      "ListApplications200ResponseInner (Some (SamlApplication (Some ''app1'')))"
      "example_AppClient (Inr ([example_AppUser ''a''], NoNextPage))" "fresh None"]
  by (simp add: quals_def fresh_def page_limit_def)

text \<open>
  C9. Pagination keeps cardinality and order: with no row limit and three pages of ten
  items each, \<^verbatim>\<open>listOktaFactors\<close> and \<^verbatim>\<open>listApplicationAssignedUsers\<close> return
  \<^verbatim>\<open>(nil, nil)\<close> having streamed exactly thirty rows, the rows of the items in their
  order, page after page; the request of a continuation page comes after all rows of the
  page before it. For the factors it is enough that every item has an actual instance,
  as every item of a recognized variant has.
\<close>

theorem pagination_order:
  assumes "ConnectF = Inr clientF"
    and "itemF = Some userData" and "user_Id userData = Some userId" and "userId \<noteq> []"
    and "\<not> pruned d userId"
    and "ListFactors clientF userId = Inr (f1, of_pages [f2, f3])"
    and "length f1 = 10" and "length f2 = 10" and "length f3 = 10"
    and "\<forall>f \<in> set (f1 @ f2 @ f3). f \<noteq> None"
    and "budget sf = None"
    and "rowF = (\<lambda>f. \<lparr>UserId = userId, UserName = GetLogin (user_Profile userData),
                         Factor = getFactorDetails (the f)\<rparr>)"
    and "extract_appId itemU = appId" and "appId \<noteq> []"
    and "ListApplicationUsers clientU (users_request d appId) = Inr (u1, of_pages [u2, u3])"
    and "length u1 = 10" and "length u2 = 10" and "length u3 = 10"
    and "budget su = None"
    and "rowU = (\<lambda>user. \<lparr>AppId = appId, User = user\<rparr>)"
  shows "fst (listOktaFactors ConnectF d itemF sf) = NoRow
       \<and> trace (snd (listOktaFactors ConnectF d itemF sf))
           = trace sf @ [ConnectCall, Request userId] @ map (Streamed \<circ> rowF) f1
               @ [NextPage] @ map (Streamed \<circ> rowF) f2 @ [NextPage] @ map (Streamed \<circ> rowF) f3
       \<and> rows_of (trace (snd (listOktaFactors ConnectF d itemF sf)))
           = rows_of (trace sf) @ map rowF (f1 @ f2 @ f3)
       \<and> length (map rowF (f1 @ f2 @ f3)) = 30
       \<and> fst (listApplicationAssignedUsers (Inr clientU) d itemU su) = NoRow
       \<and> trace (snd (listApplicationAssignedUsers (Inr clientU) d itemU su))
           = trace su @ [ConnectCall, Request (users_request d appId)] @ map (Streamed \<circ> rowU) u1
               @ [NextPage] @ map (Streamed \<circ> rowU) u2 @ [NextPage] @ map (Streamed \<circ> rowU) u3
       \<and> rows_of (trace (snd (listApplicationAssignedUsers (Inr clientU) d itemU su)))
           = rows_of (trace su) @ map rowU (u1 @ u2 @ u3)
       \<and> length (map rowU (u1 @ u2 @ u3)) = 30"
proof -
  let ?n = "GetLogin (user_Profile userData)"
  have fr: "factor_rows userId ?n f = map rowF f" if "f = f1 \<or> f = f2 \<or> f = f3" for f
    using that assms(10) assms(12) by (auto simp add: factor_rows_all)
  have F: "listOktaFactors ConnectF d itemF sf
      = (NoRow, sf\<lparr>trace := trace sf @ [ConnectCall, Request userId]
              @ map Streamed (map rowF f1)
              @ concat (map (\<lambda>p. NextPage # map Streamed p) [map rowF f2, map rowF f3])\<rparr>)"
    using listOktaFactors_pages[OF assms(1-6) assms(11)] by (simp add: fr)
  have ur: "user_rows appId u = map rowU u" for u
    by (simp add: user_rows_def assms(20))
  have U: "listApplicationAssignedUsers (Inr clientU) d itemU su
      = (NoRow, su\<lparr>trace := trace su @ [ConnectCall, Request (users_request d appId)]
              @ map Streamed (map rowU u1)
              @ concat (map (\<lambda>p. NextPage # map Streamed p) [map rowU u2, map rowU u3])\<rparr>)"
    using listApplicationAssignedUsers_pages[OF assms(13-15) assms(19)] by (simp add: ur)
  show ?thesis
    unfolding F U using assms(7-9) assms(16-18)
    by (simp add: rows_of_append rows_of_Streamed_comp)
qed


theorem pagination_order_witness:
  "rows_of (trace (snd (listOktaFactors (Inr (example_FactorClient three_pages_factors))
       (quals [] None ''okta_factor'') (Some (example_user ''u1'')) (fresh None))))
     = map (\<lambda>i. \<lparr>UserId = ''u1'', UserName = ''login'',
                   Factor = getFactorDetails (the (example_factor i))\<rparr>)
         (ten_ids ''a'' @ ten_ids ''b'' @ ten_ids ''c'')
   \<and> length (rows_of (trace (snd (listOktaFactors (Inr (example_FactorClient three_pages_factors))
       (quals [] None ''okta_factor'') (Some (example_user ''u1'')) (fresh None))))) = 30
   \<and> length (filter is_Fetch (trace (snd (listApplicationAssignedUsers
       (Inr (example_AppClient three_pages_users)) (quals [] None ''okta_factor'')
       (ListApplications200ResponseInner (Some (SamlApplication (Some ''app1''))))
       (fresh None))))) = 3
   \<and> length (rows_of (trace (snd (listApplicationAssignedUsers
       (Inr (example_AppClient three_pages_users)) (quals [] None ''okta_factor'')
       (ListApplications200ResponseInner (Some (SamlApplication (Some ''app1''))))
       (fresh None))))) = 30"
  using pagination_order [where ConnectF = "Inr (example_FactorClient three_pages_factors)"
      and clientF = "example_FactorClient three_pages_factors"
      and itemF = "Some (example_user ''u1'')" and userData = "example_user ''u1''"
      and userId = "''u1''" and d = "quals [] None ''okta_factor''"
      and ?f1.0 = "map example_factor (ten_ids ''a'')"
      and ?f2.0 = "map example_factor (ten_ids ''b'')"
      and ?f3.0 = "map example_factor (ten_ids ''c'')"
      and sf = "fresh None"
      and rowF = "\<lambda>f. \<lparr>UserId = ''u1'', UserName = GetLogin (user_Profile (example_user ''u1'')),
                         Factor = getFactorDetails (the f)\<rparr>"
      and itemU = "ListApplications200ResponseInner (Some (SamlApplication (Some ''app1'')))"
      and appId = "''app1''"
      and clientU = "example_AppClient three_pages_users"
      and ?u1.0 = "map example_AppUser (ten_ids ''a'')"
      and ?u2.0 = "map example_AppUser (ten_ids ''b'')"
      and ?u3.0 = "map example_AppUser (ten_ids ''c'')"
      and su = "fresh None" and rowU = "\<lambda>user. \<lparr>AppId = ''app1'', User = user\<rparr>"]
  by (simp add: example_FactorClient_def example_AppClient_def example_user_def example_factor_def
        three_pages_factors_def three_pages_users_def ten_ids_def
        quals_def fresh_def pruned_def GetLogin_def)

text \<open>
  C2, as amended. \<^verbatim>\<open>listOktaFactors\<close> obtains the client first; a failure of
  \<^verbatim>\<open>Connect\<close> is returned as the error. Then, for an exact-match qualifier on
  \<^verbatim>\<open>user_id\<close> with a non-empty value \<open>v\<close>, a parent row whose key differs from \<open>v\<close>
  makes it return \<^verbatim>\<open>(nil, nil)\<close> with no primary fetch; and whatever the parent row, a
  primary fetch is issued only when the key of the row is \<open>v\<close>.
\<close>

theorem exact_qualifier_prunes:
  assumes "EqualsQuals d ''user_id'' = Some (StringValue v)" and "v \<noteq> []"
  shows "(key \<noteq> v \<longrightarrow>
            listOktaFactors (Inr client) d (Some \<lparr>user_Id = Some key, user_Profile = p\<rparr>) s
              = (NoRow, log_event ConnectCall s))
       \<and> listOktaFactors (Inl err) d item s = (Failed err, log_event ConnectCall s)
       \<and> (requests_of (trace (snd (listOktaFactors Connect d item s))) \<noteq> requests_of (trace s)
            \<longrightarrow> (\<exists>userData. item = Some userData \<and> user_Id userData = Some v))"
proof (intro conjI impI)
  assume "key \<noteq> v"
  then have "pruned d key" using assms by (auto simp add: pruned_exact)
  then show "listOktaFactors (Inr client) d (Some \<lparr>user_Id = Some key, user_Profile = p\<rparr>) s
              = (NoRow, log_event ConnectCall s)"
    by (rule listOktaFactors_pruned)
next
  show "listOktaFactors (Inl err) d item s = (Failed err, log_event ConnectCall s)"
    by (simp add: listOktaFactors_def)
next
  assume "requests_of (trace (snd (listOktaFactors Connect d item s))) \<noteq> requests_of (trace s)"
  then show "\<exists>userData. item = Some userData \<and> user_Id userData = Some v"
    unfolding listOktaFactors_requests using assms
    by (auto simp add: pruned_exact split: sum.splits option.splits if_splits)
qed

theorem exact_qualifier_prunes_witness:
  "EqualsQuals (quals [(''user_id'', StringValue ''u2'')] None ''okta_factor'') ''user_id''
     = Some (StringValue ''u2'')
   \<and> ''u2'' \<noteq> [] \<and> ''u1'' \<noteq> ''u2''
   \<and> listOktaFactors (Inr (example_FactorClient three_pages_factors))
         (quals [(''user_id'', StringValue ''u2'')] None ''okta_factor'')
         (Some \<lparr>user_Id = Some ''u1'', user_Profile = None\<rparr>) (fresh None)
       = (NoRow, \<lparr>budget = None, trace = [ConnectCall]\<rparr>)
   \<and> requests_of (trace (snd (listOktaFactors (Inr (example_FactorClient three_pages_factors))
         (quals [(''user_id'', StringValue ''u2'')] None ''okta_factor'')
         (Some (example_user ''u2'')) (fresh None)))) = [''u2'']
   \<and> user_Id (example_user ''u2'') = Some ''u2''"
  using exact_qualifier_prunes [where d = "quals [(''user_id'', StringValue ''u2'')] None ''okta_factor''"
      and v = "''u2''" and key = "''u1''" and client = "example_FactorClient three_pages_factors"
      and p = None and s = "fresh None" and item = "Some (example_user ''u2'')"
      and Connect = "Inr (example_FactorClient three_pages_factors)" and err = "''e''"]
  by (simp add: quals_def fresh_def log_event_def example_user_def listOktaFactors_requests
        pruned_def EqualsQualString_def)

text \<open>
  The claim as written fails: with the qualifier \<open>u2\<close> and the parent \<open>u1\<close> the client
  is obtained before the function returns, and a failing \<^verbatim>\<open>Connect\<close> gives an error,
  not \<^verbatim>\<open>(nil, nil)\<close>; and an exact-match qualifier with the empty string prunes nothing.
\<close>

theorem exact_qualifier_prunes_counterexample:
  "listOktaFactors (Inr (example_FactorClient three_pages_factors))
       (quals [(''user_id'', StringValue ''u2'')] None ''okta_factor'')
       (Some (example_user ''u1'')) (fresh None)
     = (NoRow, \<lparr>budget = None, trace = [ConnectCall]\<rparr>)
   \<and> listOktaFactors (Inl ''connection refused'')
       (quals [(''user_id'', StringValue ''u2'')] None ''okta_factor'')
       (Some (example_user ''u1'')) (fresh None)
     = (Failed ''connection refused'', \<lparr>budget = None, trace = [ConnectCall]\<rparr>)
   \<and> listOktaFactors (Inr (example_FactorClient (Inr ([], NoNextPage))))
       (quals [(''user_id'', StringValue [])] None ''okta_factor'')
       (Some (example_user ''u1'')) (fresh None)
     = (NoRow, \<lparr>budget = None, trace = [ConnectCall, Request ''u1'']\<rparr>)"
  by (simp add: listOktaFactors_def quals_def fresh_def log_event_def example_user_def
        example_FactorClient_def pruned_def EqualsQualString_def GetLogin_def getListValues_def)

text \<open>
  C3, as amended. A list-valued qualifier on \<^verbatim>\<open>user_id\<close> is not sent to the endpoint: the
  request carries the key of the parent row only. It is enforced on the client when
  \<^verbatim>\<open>getListValues\<close> yields at least one value from the list (the list holds a non-empty
  string): then, once the client is obtained, a parent row whose key is not among the
  values is skipped with \<^verbatim>\<open>(nil, nil)\<close> and no primary fetch, and a parent row whose
  non-empty key is among them proceeds to the primary fetch. When \<^verbatim>\<open>getListValues\<close>
  yields no value (the list is empty, or holds empty strings only), no parent row is
  skipped: the primary fetch is issued for every non-empty key.
\<close>

theorem list_qualifier_client_side:
  assumes "EqualsQuals d ''user_id'' = Some (ListValue vs)"
  shows "(getListValues (Some vs) \<noteq> [] \<and> key \<notin> set (getListValues (Some vs)) \<longrightarrow>
            listOktaFactors (Inr client) d (Some \<lparr>user_Id = Some key, user_Profile = p\<rparr>) s
              = (NoRow, log_event ConnectCall s))
       \<and> (key' \<in> set (getListValues (Some vs)) \<and> key' \<noteq> [] \<longrightarrow>
            requests_of (trace (snd (listOktaFactors (Inr client) d
                (Some \<lparr>user_Id = Some key', user_Profile = p\<rparr>) s)))
              = requests_of (trace s) @ [key'])
       \<and> (EqualsQuals d0 ''user_id'' = Some (ListValue vs0) \<and> getListValues (Some vs0) = []
            \<and> key0 \<noteq> [] \<longrightarrow>
            requests_of (trace (snd (listOktaFactors (Inr client) d0
                (Some \<lparr>user_Id = Some key0, user_Profile = p\<rparr>) s)))
              = requests_of (trace s) @ [key0])"
proof (intro conjI impI)
  assume "getListValues (Some vs) \<noteq> [] \<and> key \<notin> set (getListValues (Some vs))"
  then have "pruned d key" using assms by (simp add: pruned_list)
  then show "listOktaFactors (Inr client) d (Some \<lparr>user_Id = Some key, user_Profile = p\<rparr>) s
              = (NoRow, log_event ConnectCall s)"
    by (rule listOktaFactors_pruned)
next
  assume "key' \<in> set (getListValues (Some vs)) \<and> key' \<noteq> []"
  then show "requests_of (trace (snd (listOktaFactors (Inr client) d
                (Some \<lparr>user_Id = Some key', user_Profile = p\<rparr>) s)))
              = requests_of (trace s) @ [key']"
    unfolding listOktaFactors_requests using assms by (auto simp add: pruned_list)
next
  assume a: "EqualsQuals d0 ''user_id'' = Some (ListValue vs0) \<and> getListValues (Some vs0) = []
            \<and> key0 \<noteq> []"
  then have "\<not> pruned d0 key0" by (simp add: pruned_list)
  then show "requests_of (trace (snd (listOktaFactors (Inr client) d0
                (Some \<lparr>user_Id = Some key0, user_Profile = p\<rparr>) s)))
              = requests_of (trace s) @ [key0]"
    unfolding listOktaFactors_requests using a by simp
qed

theorem list_qualifier_client_side_witness:
  "EqualsQuals (quals [(''user_id'', ListValue [StringValue ''u2'', StringValue ''u3''])] None
       ''okta_factor'') ''user_id'' = Some (ListValue [StringValue ''u2'', StringValue ''u3''])
   \<and> getListValues (Some [StringValue ''u2'', StringValue ''u3'']) = [''u2'', ''u3'']
   \<and> listOktaFactors (Inr (example_FactorClient three_pages_factors))
         (quals [(''user_id'', ListValue [StringValue ''u2'', StringValue ''u3''])] None ''okta_factor'')
         (Some \<lparr>user_Id = Some ''u1'', user_Profile = None\<rparr>) (fresh None)
       = (NoRow, \<lparr>budget = None, trace = [ConnectCall]\<rparr>)
   \<and> requests_of (trace (snd (listOktaFactors (Inr (example_FactorClient three_pages_factors))
         (quals [(''user_id'', ListValue [StringValue ''u2'', StringValue ''u3''])] None ''okta_factor'')
         (Some \<lparr>user_Id = Some ''u3'', user_Profile = None\<rparr>) (fresh None)))) = [''u3'']
   \<and> getListValues (Some [StringValue [], StringValue []]) = []
   \<and> requests_of (trace (snd (listOktaFactors (Inr (example_FactorClient three_pages_factors))
         (quals [(''user_id'', ListValue [StringValue [], StringValue []])] None ''okta_factor'')
         (Some \<lparr>user_Id = Some ''u1'', user_Profile = None\<rparr>) (fresh None)))) = [''u1'']"
  using list_qualifier_client_side [where
      d = "quals [(''user_id'', ListValue [StringValue ''u2'', StringValue ''u3''])] None ''okta_factor''"
      and vs = "[StringValue ''u2'', StringValue ''u3'']" and key = "''u1''" and key' = "''u3''"
      and ?d0.0 = "quals [(''user_id'', ListValue [StringValue [], StringValue []])] None ''okta_factor''"
      and ?vs0.0 = "[StringValue [], StringValue []]" and ?key0.0 = "''u1''"
      and client = "example_FactorClient three_pages_factors" and p = None and s = "fresh None"]
  by (simp add: quals_def fresh_def log_event_def getListValues_def)

text \<open>
  The claim as written fails for a qualifier whose list has no value: no parent row is
  skipped, and the primary fetch is issued for a key that is not a member.
\<close>

theorem list_qualifier_client_side_counterexample:
  "GetListValue (EqualsQuals (quals [(''user_id'', ListValue [])] None ''okta_factor'') ''user_id'')
     = Some []
   \<and> listOktaFactors (Inr (example_FactorClient (Inr ([], NoNextPage))))
       (quals [(''user_id'', ListValue [])] None ''okta_factor'')
       (Some (example_user ''u1'')) (fresh None)
     = (NoRow, \<lparr>budget = None, trace = [ConnectCall, Request ''u1'']\<rparr>)"
  by (simp add: listOktaFactors_def quals_def fresh_def log_event_def example_user_def
        example_FactorClient_def pruned_def EqualsQualString_def GetLogin_def getListValues_def)

text \<open>
  C4, as amended. \<^verbatim>\<open>listApplicationAssignedUsers\<close> sends the first non-empty of the
  qualifiers \<^verbatim>\<open>user_name\<close>, \<^verbatim>\<open>first_name\<close>, \<^verbatim>\<open>email\<close> to the server as \<^verbatim>\<open>q\<close>
  and re-checks no qualifier: the rows it streams are the items that the server returned,
  in their order, as far as the row budget lets them through. An emitted row satisfies the
  pushed-down qualifier only when the server's item does.
\<close>

theorem pushed_qualifier_not_rechecked:
  assumes "extract_appId item = appId" and "appId \<noteq> []"
    and "ListApplicationUsers client (users_request d appId) = Inr (users, resp)"
  shows "rows_of (trace (snd (listApplicationAssignedUsers (Inr client) d item s)))
           = rows_of (trace s) @ allowed (budget s) (user_rows appId (users @ concat (ok_pages resp)))
       \<and> requests_of (trace (snd (listApplicationAssignedUsers (Inr client) d item s)))
           = requests_of (trace s) @ [users_request d appId]
       \<and> req_q (users_request d appId) = (if choose_q d = [] then None else Some (choose_q d))"
proof -
  let ?s2 = "log_event (Request (users_request d appId)) (log_event ConnectCall s)"
  have eq: "listApplicationAssignedUsers (Inr client) d item s
      = (case stream_rows (user_rows appId users) ?s2 of
           (True, s1) \<Rightarrow> (NoRow, s1)
         | (False, s1) \<Rightarrow> page_rows (map_APIResponse (user_rows appId) resp) s1)"
    using assms by (simp add: listApplicationAssignedUsers_def Let_def users_loops_rows)
  have rows: "rows_of (trace (snd (listApplicationAssignedUsers (Inr client) d item s)))
           = rows_of (trace s) @ allowed (budget s) (user_rows appId (users @ concat (ok_pages resp)))"
    unfolding eq first_then_pages_rows
    by (simp add: log_event_def rows_of_append ok_pages_map user_rows_concat)
       (simp add: user_rows_def)
  have reqs: "requests_of (trace (snd (listApplicationAssignedUsers (Inr client) d item s)))
           = requests_of (trace s) @ [users_request d appId]"
    unfolding eq first_then_pages_requests by (simp add: log_event_def requests_of_append)
  have "req_q (users_request d appId) = (if choose_q d = [] then None else Some (choose_q d))"
    by (simp add: users_request_def Let_def)
  with rows reqs show ?thesis by blast
qed

theorem pushed_qualifier_not_rechecked_witness:
  "extract_appId (ListApplications200ResponseInner (Some (SamlApplication (Some ''app1'')))) = ''app1''
   \<and> rows_of (trace (snd (listApplicationAssignedUsers
         (Inr (example_AppClient (Inr ([example_AppUser ''bob'', example_AppUser ''alice''],
                                       NextOk [example_AppUser ''carol''] NoNextPage))))
         (quals [(''user_name'', StringValue ''alice'')] None ''okta_app_assigned_user'')
         (ListApplications200ResponseInner (Some (SamlApplication (Some ''app1''))))
         (fresh (Some 2)))))
       = [\<lparr>AppId = ''app1'', User = example_AppUser ''bob''\<rparr>,
          \<lparr>AppId = ''app1'', User = example_AppUser ''alice''\<rparr>]
   \<and> req_q (users_request (quals [(''user_name'', StringValue ''alice'')] None
         ''okta_app_assigned_user'') ''app1'') = Some ''alice''"
  using pushed_qualifier_not_rechecked [where
      item = "ListApplications200ResponseInner (Some (SamlApplication (Some ''app1'')))"
      and appId = "''app1''"
      and client = "example_AppClient (Inr ([example_AppUser ''bob'', example_AppUser ''alice''],
                                       NextOk [example_AppUser ''carol''] NoNextPage))"
      and d = "quals [(''user_name'', StringValue ''alice'')] None ''okta_app_assigned_user''"
      and users = "[example_AppUser ''bob'', example_AppUser ''alice'']"
      and resp = "NextOk [example_AppUser ''carol''] NoNextPage"
      and s = "fresh (Some 2)"]
  by (simp add: example_AppClient_def fresh_def allowed_def user_rows_def quals_def choose_q_def
        EqualsQualString_def)

text \<open>
  The claim as written fails: with the qualifier \<^verbatim>\<open>user_name = alice\<close> sent as \<^verbatim>\<open>q\<close>
  and a server that answers with the users bob and alice, the row of bob is streamed.
\<close>

theorem pushed_qualifier_not_rechecked_counterexample:
  "EqualsQualString (quals [(''user_name'', StringValue ''alice'')] None ''okta_app_assigned_user'')
       ''user_name'' = ''alice''
   \<and> map req_q (requests_of (trace (snd (listApplicationAssignedUsers
         (Inr (example_AppClient (Inr ([example_AppUser ''bob'', example_AppUser ''alice''], NoNextPage))))
         (quals [(''user_name'', StringValue ''alice'')] None ''okta_app_assigned_user'')
         (ListApplications200ResponseInner (Some (SamlApplication (Some ''app1''))))
         (fresh None))))) = [Some ''alice'']
   \<and> map (\<lambda>row. au_UserName (User row)) (rows_of (trace (snd (listApplicationAssignedUsers
         (Inr (example_AppClient (Inr ([example_AppUser ''bob'', example_AppUser ''alice''], NoNextPage))))
         (quals [(''user_name'', StringValue ''alice'')] None ''okta_app_assigned_user'')
         (ListApplications200ResponseInner (Some (SamlApplication (Some ''app1''))))
         (fresh None))))) = [''bob'', ''alice'']"
  by (simp add: listApplicationAssignedUsers_def example_AppClient_def example_AppUser_def fresh_def
        quals_def users_request_def choose_q_def EqualsQualString_def log_event_def
        StreamListItem_def RowsRemaining_def Let_def)


text \<open>
  C6. The code at the failing input: \<^verbatim>\<open>listOktaFactors\<close> ends with \<^verbatim>\<open>(nil, nil)\<close> on a
  not-found error of the first page, but returns the same error of a continuation page
  to the caller (no item of the failing page is streamed; the rows of the pages before
  it were); \<^verbatim>\<open>listApplicationAssignedUsers\<close> returns a not-found error of the first
  page too.
\<close>

theorem continuation_not_found_propagates:
  "listOktaFactors
     (Inr (example_FactorClient (Inr ([example_factor ''a''], NextFails ''Not found: user''))))
     (quals [] None ''okta_factor'') (Some (example_user ''u1'')) (fresh None)
   = (Failed ''Not found: user'',
      \<lparr>budget = None,
       trace = [ConnectCall, Request ''u1'',
                Streamed \<lparr>UserId = ''u1'', UserName = ''login'',
                          Factor = getFactorDetails (the (example_factor ''a''))\<rparr>,
                NextPage]\<rparr>)
   \<and> listOktaFactors (Inr (example_FactorClient (Inl ''Not found: user'')))
     (quals [] None ''okta_factor'') (Some (example_user ''u1'')) (fresh None)
   = (NoRow, \<lparr>budget = None, trace = [ConnectCall, Request ''u1'']\<rparr>)
   \<and> listApplicationAssignedUsers (Inr (example_AppClient (Inl ''Not found: app'')))
     (quals [] None ''okta_app_assigned_user'')
     (ListApplications200ResponseInner (Some (SamlApplication (Some ''app1'')))) (fresh None)
   = (Failed ''Not found: app'',
      \<lparr>budget = None,
       trace = [ConnectCall, Request \<lparr>req_appId = ''app1'', req_limit = 500, req_q = None\<rparr>]\<rparr>)"
  by (simp add: listOktaFactors_def listApplicationAssignedUsers_def example_FactorClient_def
        example_AppClient_def example_factor_def example_user_def quals_def fresh_def pruned_def
        GetLogin_def log_event_def StreamListItem_def RowsRemaining_def Let_def
        users_request_def choose_q_def EqualsQualString_def page_limit_def of_typed_def)

text \<open>
  C7, as amended. For a raw item whose variant is outside the declared set,
  \<^verbatim>\<open>getFactorDetails\<close> returns the empty \<^verbatim>\<open>OktaFactor{}\<close> and
  \<^verbatim>\<open>convertPolicyRespToStruct\<close> returns nil, neither with an error; \<^verbatim>\<open>listPolicies\<close>
  streams nothing for such a policy, and \<^verbatim>\<open>listOktaFactors\<close> streams nothing for an
  item with no actual instance. Of the declared policy variants,
  \<^verbatim>\<open>convertPolicyRespToStruct\<close> resolves the password and the authenticator-enrollment
  policy, the two that \<^verbatim>\<open>listPolicies\<close> asks the server for; for the access, the
  IdP-discovery and the sign-on policy it returns nil and nothing is streamed. Where a
  resolver resolves a variant, the row carries the identity of the raw item: it is
  non-empty when the raw item has a non-empty \<^verbatim>\<open>Id\<close>.
\<close>

theorem union_resolution:
  "(embedded_factor inst0 = None \<longrightarrow> getFactorDetails inst0 = empty_OktaFactor)
   \<and> (embedded_factor inst = Some f \<longrightarrow> Factor_UserFactor (getFactorDetails inst) = f)
   \<and> (embedded_factor inst = Some f \<and> uf_Id f = Some i \<and> i \<noteq> []
        \<longrightarrow> uf_Id (Factor_UserFactor (getFactorDetails inst)) = Some i)
   \<and> stream_factors userId userName (None # factors) s = stream_factors userId userName factors s
   \<and> (declared_policy pol0 = None \<longrightarrow>
         convertPolicyRespToStruct (Some (Some pol0)) = None
         \<and> stream_policy (Some (Some pol0)) sp = (False, sp)
         \<and> page_policies (NextOk (Some pol0) resp) sp = page_policies resp (log_event NextPage sp))
   \<and> (pol = PasswordPolicy p \<or> pol = AuthenticatorEnrollmentPolicy p \<longrightarrow>
         declared_policy pol = Some p
         \<and> convertPolicyRespToStruct (Some (Some pol)) = Some (to_struct p))
   \<and> ((pol = PasswordPolicy p \<or> pol = AuthenticatorEnrollmentPolicy p)
         \<and> p_Id p = Some j \<and> j \<noteq> []
        \<longrightarrow> map_option ps_Id (convertPolicyRespToStruct (Some (Some pol))) = Some j)
   \<and> (pol1 = AccessPolicy p1 \<or> pol1 = IdpDiscoveryPolicy p1 \<or> pol1 = OktaSignOnPolicy p1 \<longrightarrow>
         declared_policy pol1 = Some p1
         \<and> convertPolicyRespToStruct (Some (Some pol1)) = None
         \<and> stream_policy (Some (Some pol1)) sp = (False, sp))"
proof -
  have 1: "embedded_factor inst0 = None \<longrightarrow> getFactorDetails inst0 = empty_OktaFactor"
    by (cases inst0) simp_all
  have 2: "embedded_factor inst = Some f \<longrightarrow> Factor_UserFactor (getFactorDetails inst) = f"
    by (cases inst) (auto simp add: of_typed_def of_plain_def)
  have 3: "embedded_factor inst = Some f \<and> uf_Id f = Some i \<and> i \<noteq> []
        \<longrightarrow> uf_Id (Factor_UserFactor (getFactorDetails inst)) = Some i"
    using 2 by auto
  have 4: "stream_factors userId userName (None # factors) s = stream_factors userId userName factors s"
    by simp
  have 5: "declared_policy pol0 = None \<longrightarrow>
         convertPolicyRespToStruct (Some (Some pol0)) = None
         \<and> stream_policy (Some (Some pol0)) sp = (False, sp)
         \<and> page_policies (NextOk (Some pol0) resp) sp = page_policies resp (log_event NextPage sp)"
    by (cases pol0) (simp_all add: stream_policy_def)
  have 6: "pol = PasswordPolicy p \<or> pol = AuthenticatorEnrollmentPolicy p \<longrightarrow>
         declared_policy pol = Some p
         \<and> convertPolicyRespToStruct (Some (Some pol)) = Some (to_struct p)"
    by auto
  have 7: "(pol = PasswordPolicy p \<or> pol = AuthenticatorEnrollmentPolicy p)
         \<and> p_Id p = Some j \<and> j \<noteq> []
        \<longrightarrow> map_option ps_Id (convertPolicyRespToStruct (Some (Some pol))) = Some j"
    by (auto simp add: to_struct_def getStringPtrVal_def)
  have 8: "pol1 = AccessPolicy p1 \<or> pol1 = IdpDiscoveryPolicy p1 \<or> pol1 = OktaSignOnPolicy p1 \<longrightarrow>
         declared_policy pol1 = Some p1
         \<and> convertPolicyRespToStruct (Some (Some pol1)) = None
         \<and> stream_policy (Some (Some pol1)) sp = (False, sp)"
    by (auto simp add: stream_policy_def)
  from 1 2 3 4 5 6 7 8 show ?thesis by blast
qed

theorem union_resolution_witness:
  "embedded_factor OtherFactor = None \<and> getFactorDetails OtherFactor = empty_OktaFactor
   \<and> embedded_factor (the (example_factor ''a''))
       = Some \<lparr>uf_Id = Some ''a'', uf_FactorType = Some ''sms'', uf_Profile = None\<rparr>
   \<and> uf_Id (Factor_UserFactor (getFactorDetails (the (example_factor ''a'')))) = Some ''a''
   \<and> declared_policy OtherPolicy = None
   \<and> convertPolicyRespToStruct (Some (Some OtherPolicy)) = None
   \<and> stream_policy (Some (Some OtherPolicy))
         (fresh None :: (string, PolicyStructure) QueryStatus) = (False, fresh None)
   \<and> declared_policy (PasswordPolicy (example_policy (Some ''p1''))) = Some (example_policy (Some ''p1''))
   \<and> map_option ps_Id (convertPolicyRespToStruct
         (Some (Some (PasswordPolicy (example_policy (Some ''p1'')))))) = Some ''p1''
   \<and> declared_policy (AccessPolicy (example_policy (Some ''p0''))) = Some (example_policy (Some ''p0''))
   \<and> convertPolicyRespToStruct (Some (Some (AccessPolicy (example_policy (Some ''p0''))))) = None
   \<and> stream_policy (Some (Some (AccessPolicy (example_policy (Some ''p0'')))))
         (fresh None :: (string, PolicyStructure) QueryStatus) = (False, fresh None)"
  using union_resolution [where ?inst0.0 = OtherFactor and inst = "the (example_factor ''a'')"
      and f = "\<lparr>uf_Id = Some ''a'', uf_FactorType = Some ''sms'', uf_Profile = None\<rparr>"
      and i = "''a''" and ?pol0.0 = OtherPolicy
      and pol = "PasswordPolicy (example_policy (Some ''p1''))"
      and p = "example_policy (Some ''p1'')" and j = "''p1''"
      and ?pol1.0 = "AccessPolicy (example_policy (Some ''p0''))"
      and ?p1.0 = "example_policy (Some ''p0'')"
      and sp = "fresh None :: (string, PolicyStructure) QueryStatus"]
  by (simp add: example_factor_def example_policy_def)

text \<open>
  The claim as written fails: \<^verbatim>\<open>listOktaFactors\<close> streams a row for an item whose actual
  instance is outside the declared variants, with the empty factor and so without an
  identity; a password policy with a nil \<^verbatim>\<open>Id\<close> resolves to a row with the empty
  identity; and an access policy, a declared variant, resolves to nil and not to a row.
\<close>

theorem union_resolution_counterexample:
  "rows_of (trace (snd (listOktaFactors
       (Inr (example_FactorClient (Inr ([Some OtherFactor], NoNextPage))))
       (quals [] None ''okta_factor'') (Some (example_user ''u1'')) (fresh None))))
     = [\<lparr>UserId = ''u1'', UserName = ''login'', Factor = empty_OktaFactor\<rparr>]
   \<and> uf_Id (Factor_UserFactor empty_OktaFactor) = None
   \<and> map_option ps_Id (convertPolicyRespToStruct (Some (Some (PasswordPolicy (example_policy None)))))
     = Some []
   \<and> declared_policy (AccessPolicy (example_policy (Some ''p0''))) = Some (example_policy (Some ''p0''))
   \<and> convertPolicyRespToStruct (Some (Some (AccessPolicy (example_policy (Some ''p0''))))) = None"
  by (simp add: listOktaFactors_def example_FactorClient_def example_user_def quals_def fresh_def
        pruned_def GetLogin_def log_event_def StreamListItem_def RowsRemaining_def Let_def
        empty_OktaFactor_def to_struct_def example_policy_def getStringPtrVal_def)

text \<open>
  C8. The code at the failing input: on the same not-found error of the remote call,
  \<^verbatim>\<open>getOktaPolicyRules\<close> returns the error, where \<^verbatim>\<open>getOktaPolicyAssociatedResources\<close>
  returns \<^verbatim>\<open>(nil, nil)\<close>; the latter returns the error too when it comes from a
  continuation page.
\<close>

theorem rules_not_found_propagates:
  "getOktaPolicyRules Inr
     (Inr (example_PolicyClient (Inl []) (Inl ''Not found: Resource not found: p1 (Policy)'')
        (Inl ''Not found: Resource not found: p1 (Policy)'')))
     (Some (ItemPolicyStructure (to_struct (example_policy (Some ''p1'')))))
   = Failed ''Not found: Resource not found: p1 (Policy)''
   \<and> getOktaPolicyAssociatedResources
     (Inr (example_PolicyClient (Inl []) (Inl ''Not found: Resource not found: p1 (Policy)'')
        (Inl ''Not found: Resource not found: p1 (Policy)'')))
     (Some (ItemPolicyStructure (to_struct (example_policy (Some ''p1'')))))
   = NoRow
   \<and> getOktaPolicyAssociatedResources
     (Inr (example_PolicyClient (Inl []) (Inl [])
        (Inr ([()], NextFails ''Not found: Resource not found: p1 (Policy)''))))
     (Some (ItemPolicyStructure (to_struct (example_policy (Some ''p1'')))))
   = Failed ''Not found: Resource not found: p1 (Policy)''"
  by (simp add: getOktaPolicyRules_def getOktaPolicyAssociatedResources_def example_PolicyClient_def
        example_policy_def to_struct_def getStringPtrVal_def ToLower_def lower_char_def)

end
